theory Spec2Isabelle
  imports Main "HOL-Library.Monad_Syntax"
begin

section \<open>The license client of \<^verbatim>\<open>packages/lib/server-only/license/license-client.ts\<close>\<close>

text \<open>
  The class \<^verbatim>\<open>LicenseClient\<close> keeps one record, the cached license, in a private field
  and mirrors it into a JSON file. The development below embeds the class method by
  method. Promises are run to completion in program order (no interleaving of two calls
  is modelled); a rejected promise is the \<open>Inl\<close> of a sum.
\<close>

subsection \<open>Types imported from \<^verbatim>\<open>types/license\<close>\<close>

text \<open>
  Modelled from the spec: the type declarations of \<^verbatim>\<open>types/license\<close>
  (\<^verbatim>\<open>TLicenseResponse\<close>, \<^verbatim>\<open>TCachedLicense\<close>, \<^verbatim>\<open>TLicenseClaim\<close>), which the client imports.
  The spec's data model gives the status of a license record as
  \<^verbatim>\<open>ACTIVE | EXPIRED | CANCELED\<close> and the derived status as these plus
  \<^verbatim>\<open>NOT_FOUND\<close> and \<^verbatim>\<open>UNAUTHORIZED\<close>. The assignment
  \<^verbatim>\<open>status = response.data.status\<close> of the client is the injection \<open>Reported\<close>.
\<close>

datatype license_status = ACTIVE | EXPIRED | CANCELED

datatype derived_status = Reported license_status | NOT_FOUND | UNAUTHORIZED

text \<open>
  \<^verbatim>\<open>Partial<TLicenseClaim>\<close>: feature names with a boolean each, in insertion order.
\<close>

type_synonym flags = "(string \<times> bool) list"

text \<open>
  A \<^verbatim>\<open>Date\<close> is its time value, the milliseconds since the epoch. A valid date has a time
  value of at most 8.64e15 in absolute value.
\<close>

type_synonym date = int

definition valid_date :: "date \<Rightarrow> bool" where
  "valid_date t = (\<bar>t\<bar> \<le> 8640000000000000)"

record license_data =
  status :: license_status
  createdAt :: date
  name :: string
  periodEnd :: date
  cancelAtPeriodEnd :: bool
  licenseKey :: string
  flags :: flags

record license_response =
  success :: bool
  data :: "license_data option"

record TCachedLicense =
  lastChecked :: string
  license :: "license_data option"
  requestedLicenseKey :: "string option"
  unauthorizedFlagUsage :: bool
  derivedStatus :: derived_status

subsection \<open>Dates as strings\<close>

text \<open>
  \<^verbatim>\<open>Date.prototype.toISOString\<close>, which \<^verbatim>\<open>JSON.stringify\<close> calls through \<^verbatim>\<open>toJSON\<close>, as
  ECMAScript defines it: the day number and the time within the day, the year of the day
  (\<open>DayFromYear\<close>, \<open>InLeapYear\<close>; \<open>YearFromDay\<close> computes the largest year that starts
  on or before the day from an estimate that is off by one at most), the month and the
  date within the year, and the year written with four digits from 0 to 9999 and with a
  sign and six digits otherwise.
\<close>

definition DayFromYear :: "int \<Rightarrow> int" where
  "DayFromYear y = 365 * (y - 1970) + (y - 1969) div 4 - (y - 1901) div 100 + (y - 1601) div 400"

definition InLeapYear :: "int \<Rightarrow> bool" where
  "InLeapYear y = (y mod 4 = 0 \<and> (y mod 100 \<noteq> 0 \<or> y mod 400 = 0))"

definition YearFromDay :: "int \<Rightarrow> int" where
  "YearFromDay z =
     (let y = 1970 + (400 * z) div 146097
      in if z < DayFromYear y then y - 1
         else if DayFromYear (y + 1) \<le> z then y + 1
         else y)"

text \<open>Months and dates count from 1; the day within the year counts from 0.\<close>

definition days_before_month :: "bool \<Rightarrow> nat \<Rightarrow> int" where
  "days_before_month leap m =
     (if m = 1 then 0 else if m = 2 then 31
      else (if leap then 1 else 0) +
        (if m = 3 then 59 else if m = 4 then 90 else if m = 5 then 120
         else if m = 6 then 151 else if m = 7 then 181 else if m = 8 then 212
         else if m = 9 then 243 else if m = 10 then 273 else if m = 11 then 304
         else 334))"

definition MonthFromDay :: "bool \<Rightarrow> int \<Rightarrow> nat" where
  "MonthFromDay leap d =
     (let l = (if leap then 1 else 0)
      in if d < 31 then 1 else if d < 59 + l then 2 else if d < 90 + l then 3
         else if d < 120 + l then 4 else if d < 151 + l then 5 else if d < 181 + l then 6
         else if d < 212 + l then 7 else if d < 243 + l then 8 else if d < 273 + l then 9
         else if d < 304 + l then 10 else if d < 334 + l then 11 else 12)"

definition digit_char :: "nat \<Rightarrow> char" where
  "digit_char d = char_of (48 + d)"

text \<open>The last \<open>k\<close> decimal digits of \<open>n\<close>, the most significant first.\<close>

fun pad :: "nat \<Rightarrow> nat \<Rightarrow> string" where
  "pad 0 n = []"
| "pad (Suc k) n = digit_char (n div 10 ^ k mod 10) # pad k n"

definition year_string :: "int \<Rightarrow> string" where
  "year_string y =
     (if 0 \<le> y \<and> y \<le> 9999 then pad 4 (nat y)
      else (if y < 0 then ''-'' else ''+'') @ pad 6 (nat \<bar>y\<bar>))"

definition toISOString :: "date \<Rightarrow> string" where
  "toISOString t =
     (let day = t div 86400000;
          ms = nat (t mod 86400000);
          y = YearFromDay day;
          leap = InLeapYear y;
          d = day - DayFromYear y;
          m = MonthFromDay leap d;
          date = nat (d - days_before_month leap m) + 1
      in year_string y @ ''-'' @ pad 2 m @ ''-'' @ pad 2 date @ ''T''
           @ pad 2 (ms div 3600000) @ '':'' @ pad 2 (ms div 60000 mod 60) @ '':''
           @ pad 2 (ms div 1000 mod 60) @ ''.'' @ pad 3 (ms mod 1000) @ ''Z'')"

text \<open>
  \<^verbatim>\<open>new Date(string)\<close> on the strings \<^verbatim>\<open>toISOString\<close> writes: the complete date-time form
  in UTC, with a four-digit year or a signed six-digit year. \<open>None\<close> is the invalid date.
  Other strings that \<^verbatim>\<open>new Date\<close> also reads (a date without a time, a time zone offset)
  are refused here.
\<close>

definition digit_value :: "char \<Rightarrow> nat option" where
  "digit_value c =
     (let n = of_char c :: nat in if 48 \<le> n \<and> n \<le> 57 then Some (n - 48) else None)"

fun take_digits :: "nat \<Rightarrow> nat \<Rightarrow> string \<Rightarrow> (nat \<times> string) option" where
  "take_digits 0 acc s = Some (acc, s)"
| "take_digits (Suc k) acc [] = None"
| "take_digits (Suc k) acc (c # cs) =
     (case digit_value c of
        None \<Rightarrow> None
      | Some v \<Rightarrow> take_digits k (10 * acc + v) cs)"

definition expect :: "char \<Rightarrow> string \<Rightarrow> string option" where
  "expect c s = (case s of [] \<Rightarrow> None | x # xs \<Rightarrow> if x = c then Some xs else None)"

definition read_year :: "string \<Rightarrow> (int \<times> string) option" where
  "read_year s =
     (case s of
        [] \<Rightarrow> None
      | c # cs \<Rightarrow>
          if c = CHR ''+'' then map_option (\<lambda>(n, r). (int n, r)) (take_digits 6 0 cs)
          else if c = CHR ''-'' then
            (case take_digits 6 0 cs of
               None \<Rightarrow> None
             | Some (n, r) \<Rightarrow> if n = 0 then None else Some (- int n, r))
          else map_option (\<lambda>(n, r). (int n, r)) (take_digits 4 0 s))"

definition MakeDay :: "int \<Rightarrow> nat \<Rightarrow> nat \<Rightarrow> int" where
  "MakeDay y m date = DayFromYear y + days_before_month (InLeapYear y) m + int date - 1"

definition MakeTime :: "nat \<Rightarrow> nat \<Rightarrow> nat \<Rightarrow> nat \<Rightarrow> int" where
  "MakeTime h mi sec ms = int h * 3600000 + int mi * 60000 + int sec * 1000 + int ms"

definition MakeDate :: "int \<Rightarrow> int \<Rightarrow> int" where
  "MakeDate day time = day * 86400000 + time"

definition TimeClip :: "int \<Rightarrow> date option" where
  "TimeClip t = (if \<bar>t\<bar> \<le> 8640000000000000 then Some t else None)"

definition newDate :: "string \<Rightarrow> date option" where
  "newDate s = do {
     (y, r) \<leftarrow> read_year s;
     r \<leftarrow> expect CHR ''-'' r;
     (m, r) \<leftarrow> take_digits 2 0 r;
     r \<leftarrow> expect CHR ''-'' r;
     (date, r) \<leftarrow> take_digits 2 0 r;
     r \<leftarrow> expect CHR ''T'' r;
     (h, r) \<leftarrow> take_digits 2 0 r;
     r \<leftarrow> expect CHR '':'' r;
     (mi, r) \<leftarrow> take_digits 2 0 r;
     r \<leftarrow> expect CHR '':'' r;
     (sec, r) \<leftarrow> take_digits 2 0 r;
     r \<leftarrow> expect CHR ''.'' r;
     (ms, r) \<leftarrow> take_digits 3 0 r;
     r \<leftarrow> expect CHR ''Z'' r;
     if r = [] \<and> 1 \<le> m \<and> m \<le> 12 \<and> 1 \<le> date \<and> date \<le> 31
        \<and> (h \<le> 23 \<or> h = 24 \<and> mi = 0 \<and> sec = 0 \<and> ms = 0) \<and> mi \<le> 59 \<and> sec \<le> 59
     then TimeClip (MakeDate (MakeDay y m date) (MakeTime h mi sec ms))
     else None
   }"

subsection \<open>The JSON file\<close>

text \<open>
  The file holds text; \<^verbatim>\<open>JSON.stringify\<close> and \<^verbatim>\<open>JSON.parse\<close> are taken at the level of
  the JSON value they write and read; the keys of an object are distinct. Numbers and
  arrays, which no field of the cached license has, are one constructor. \<open>NotJson\<close> is
  text that \<^verbatim>\<open>JSON.parse\<close> refuses, the empty text among it.
\<close>

datatype json = JNull | JBool bool | JString string | JObject "(string \<times> json) list" | JOther

datatype file_content = NoFile | NotJson | Json json

datatype error = Error string

subsection \<open>The process and its surroundings\<close>

text \<open>
  Host data that the policy check is specified over: whether billing is enabled, which
  feature flags are enterprise flags, and the flags each organisation claims.
\<close>

record host =
  IS_BILLING_ENABLED :: bool
  enterpriseFlags :: "string list"
  organisationClaims :: "flags list"

text \<open>
  \<^verbatim>\<open>fs.writeFile\<close> opens the file for writing, which empties it, and then writes. It
  succeeds, or fails before the file is opened (the file is untouched), or fails after
  (the file holds the empty text or a part of the new text, neither of which is JSON).
\<close>

datatype write_result = Written | Open_failed error | Write_failed error

text \<open>
  What a call reads and does not change: the module constant \<^verbatim>\<open>LICENSE_KEY\<close>, the clock
  (as \<^verbatim>\<open>new Date().toISOString()\<close> returns it), whether \<^verbatim>\<open>process.cwd()\<close> throws when
  \<^verbatim>\<open>loadFromFile\<close> and when \<^verbatim>\<open>saveToFile\<close> call it (it does when the working directory has
  been removed), whether \<^verbatim>\<open>fs.readFile\<close> succeeds, how \<^verbatim>\<open>fs.writeFile\<close> ends, and the host.
\<close>

record env =
  LICENSE_KEY :: "string option"
  now :: string
  cwd_on_load :: "error option"
  cwd_on_save :: "error option"
  readFile_ok :: bool
  writeFile_result :: write_result
  host :: host

text \<open>The lines written to the console, one constructor for each call in the source.\<close>

datatype console_entry =
    Log_checking
  | Warn_not_responding
  | Error_object error
  | Warn_unauthorized
  | Log_completed
  | Log_unauthorized_usage bool
  | Log_derived_status derived_status
  | Log_status "license_status option"
  | Log_flags flags
  | Log_bypass_ping
  | Log_bypass_check
  | Error_failed_verify error
  | Error_failed_save error

text \<open>The lines that report a failure.\<close>

fun is_failure_line :: "console_entry \<Rightarrow> bool" where
  "is_failure_line Warn_not_responding = True"
| "is_failure_line (Error_object err) = True"
| "is_failure_line (Error_failed_verify err) = True"
| "is_failure_line (Error_failed_save err) = True"
| "is_failure_line _ = False"

record LicenseClient =
  cachedLicense :: "TCachedLicense option"

text \<open>
  What a call changes: the license file, the objects of class \<^verbatim>\<open>LicenseClient\<close> (an
  object is its index in \<open>heap\<close>), the global \<^verbatim>\<open>globalThis.__documenso_license_client__\<close>,
  the console, and the requests sent over the network (the URL of each).
\<close>

record state =
  license_file :: file_content
  heap :: "LicenseClient list"
  global_client :: "nat option"
  console :: "console_entry list"
  requests :: "string list"

definition console_write :: "console_entry list \<Rightarrow> state \<Rightarrow> state" where
  "console_write out s = s\<lparr>console := console s @ out\<rparr>"

definition set_cachedLicense :: "nat \<Rightarrow> TCachedLicense option \<Rightarrow> state \<Rightarrow> state" where
  "set_cachedLicense this v s = s\<lparr>heap := (heap s)[this := \<lparr>cachedLicense = v\<rparr>]\<rparr>"

definition get_cachedLicense :: "nat \<Rightarrow> state \<Rightarrow> TCachedLicense option" where
  "get_cachedLicense this s = (if this < length (heap s) then cachedLicense (heap s ! this) else None)"

subsection \<open>Writing and reading the cached license\<close>

fun status_string :: "license_status \<Rightarrow> string" where
  "status_string ACTIVE = ''ACTIVE''"
| "status_string EXPIRED = ''EXPIRED''"
| "status_string CANCELED = ''CANCELED''"

fun derived_status_string :: "derived_status \<Rightarrow> string" where
  "derived_status_string (Reported st) = status_string st"
| "derived_status_string NOT_FOUND = ''NOT_FOUND''"
| "derived_status_string UNAUTHORIZED = ''UNAUTHORIZED''"

text \<open>
  \<^verbatim>\<open>JSON.stringify(data, null, 2)\<close> on a cached license: the own properties in the order
  of the object literals, a \<^verbatim>\<open>Date\<close> through its \<^verbatim>\<open>toJSON\<close> (the ISO string), \<^verbatim>\<open>null\<close> kept
  and a property whose value is \<^verbatim>\<open>undefined\<close> left out.
\<close>

definition flags_json :: "flags \<Rightarrow> json" where
  "flags_json fl = JObject (map (\<lambda>(k, b). (k, JBool b)) fl)"

definition license_json :: "license_data \<Rightarrow> json" where
  "license_json l = JObject
     [(''status'', JString (status_string (status l))),
      (''createdAt'', JString (toISOString (createdAt l))),
      (''name'', JString (name l)),
      (''periodEnd'', JString (toISOString (periodEnd l))),
      (''cancelAtPeriodEnd'', JBool (cancelAtPeriodEnd l)),
      (''licenseKey'', JString (licenseKey l)),
      (''flags'', flags_json (flags l))]"

definition cached_json :: "TCachedLicense \<Rightarrow> json" where
  "cached_json c = JObject
     ([(''lastChecked'', JString (lastChecked c)),
       (''license'', (case license c of None \<Rightarrow> JNull | Some l \<Rightarrow> license_json l))]
      @ (case requestedLicenseKey c of None \<Rightarrow> [] | Some k \<Rightarrow> [(''requestedLicenseKey'', JString k)])
      @ [(''unauthorizedFlagUsage'', JBool (unauthorizedFlagUsage c)),
         (''derivedStatus'', JString (derived_status_string (derivedStatus c)))])"

text \<open>
  Modelled from the spec: the field readers of the schema \<^verbatim>\<open>ZCachedLicenseSchema\<close> of
  \<^verbatim>\<open>types/license\<close>, which is not among the sources. The spec has the load validate the shape
  of the record against the data model: \<open>lastChecked\<close> a string, \<open>license\<close> a license
  record or absent (\<^verbatim>\<open>null\<close>), \<open>requestedLicenseKey\<close> a string or absent,
  \<open>unauthorizedFlagUsage\<close> a boolean, \<open>derivedStatus\<close> one of the enumeration; in a
  license record the two timestamps are read back as dates (by \<^verbatim>\<open>new Date\<close> on the string;
  an invalid date fails) and \<open>flags\<close> is a mapping from feature names to booleans.
  Anything else fails the validation. No relation between fields is part of the shape.
\<close>

fun string_field :: "json option \<Rightarrow> string option" where
  "string_field (Some (JString x)) = Some x"
| "string_field _ = None"

fun bool_field :: "json option \<Rightarrow> bool option" where
  "bool_field (Some (JBool b)) = Some b"
| "bool_field _ = None"

definition date_field :: "json option \<Rightarrow> date option" where
  "date_field j = (case string_field j of None \<Rightarrow> None | Some x \<Rightarrow> newDate x)"

definition status_of_string :: "string \<Rightarrow> license_status option" where
  "status_of_string x =
     (if x = ''ACTIVE'' then Some ACTIVE
      else if x = ''EXPIRED'' then Some EXPIRED
      else if x = ''CANCELED'' then Some CANCELED
      else None)"

definition derived_status_of_string :: "string \<Rightarrow> derived_status option" where
  "derived_status_of_string x =
     (if x = ''NOT_FOUND'' then Some NOT_FOUND
      else if x = ''UNAUTHORIZED'' then Some UNAUTHORIZED
      else map_option Reported (status_of_string x))"

fun flags_of_fields :: "(string \<times> json) list \<Rightarrow> flags option" where
  "flags_of_fields [] = Some []"
| "flags_of_fields ((k, JBool b) # kvs) = map_option ((#) (k, b)) (flags_of_fields kvs)"
| "flags_of_fields (_ # kvs) = None"

fun flags_field :: "json option \<Rightarrow> flags option" where
  "flags_field (Some (JObject kvs)) = flags_of_fields kvs"
| "flags_field _ = None"

definition license_of_fields :: "(string \<times> json) list \<Rightarrow> license_data option" where
  "license_of_fields kvs =
     (case Option.bind (string_field (map_of kvs ''status'')) status_of_string of None \<Rightarrow> None | Some st \<Rightarrow>
     (case date_field (map_of kvs ''createdAt'') of None \<Rightarrow> None | Some ca \<Rightarrow>
     (case string_field (map_of kvs ''name'') of None \<Rightarrow> None | Some n \<Rightarrow>
     (case date_field (map_of kvs ''periodEnd'') of None \<Rightarrow> None | Some pe \<Rightarrow>
     (case bool_field (map_of kvs ''cancelAtPeriodEnd'') of None \<Rightarrow> None | Some cp \<Rightarrow>
     (case string_field (map_of kvs ''licenseKey'') of None \<Rightarrow> None | Some lk \<Rightarrow>
     (case flags_field (map_of kvs ''flags'') of None \<Rightarrow> None | Some fl \<Rightarrow>
        Some \<lparr>status = st, createdAt = ca, name = n, periodEnd = pe,
              cancelAtPeriodEnd = cp, licenseKey = lk, flags = fl\<rparr>)))))))"

fun license_field :: "json option \<Rightarrow> license_data option option" where
  "license_field (Some JNull) = Some None"
| "license_field (Some (JObject kvs)) = map_option Some (license_of_fields kvs)"
| "license_field _ = None"

fun optional_string_field :: "json option \<Rightarrow> string option option" where
  "optional_string_field None = Some None"
| "optional_string_field (Some (JString x)) = Some (Some x)"
| "optional_string_field _ = None"

definition cached_of_fields :: "(string \<times> json) list \<Rightarrow> TCachedLicense option" where
  "cached_of_fields kvs =
     (case string_field (map_of kvs ''lastChecked'') of None \<Rightarrow> None | Some lc \<Rightarrow>
     (case license_field (map_of kvs ''license'') of None \<Rightarrow> None | Some l \<Rightarrow>
     (case optional_string_field (map_of kvs ''requestedLicenseKey'') of None \<Rightarrow> None | Some k \<Rightarrow>
     (case bool_field (map_of kvs ''unauthorizedFlagUsage'') of None \<Rightarrow> None | Some u \<Rightarrow>
     (case Option.bind (string_field (map_of kvs ''derivedStatus'')) derived_status_of_string of None \<Rightarrow> None | Some d \<Rightarrow>
        Some \<lparr>lastChecked = lc, license = l, requestedLicenseKey = k,
              unauthorizedFlagUsage = u, derivedStatus = d\<rparr>)))))"

text \<open>
  Modelled from the spec: \<^verbatim>\<open>ZCachedLicenseSchema.parse\<close>, which the client calls on what it
  read. The value must be an object whose fields pass the readers above.
\<close>

fun ZCachedLicenseSchema_parse :: "json \<Rightarrow> TCachedLicense option" where
  "ZCachedLicenseSchema_parse (JObject kvs) = cached_of_fields kvs"
| "ZCachedLicenseSchema_parse _ = None"

text \<open>
  \<^verbatim>\<open>saveToFile\<close>: \<^verbatim>\<open>process.cwd()\<close> stands before the \<^verbatim>\<open>try\<close>, so its error leaves the
  method; the write is inside the \<^verbatim>\<open>try\<close>, and a failed write is logged and nothing is
  thrown.
\<close>

definition saveToFile :: "env \<Rightarrow> TCachedLicense \<Rightarrow> state \<Rightarrow> (error + unit) \<times> state" where
  "saveToFile e d s =
     (case cwd_on_save e of
        Some err \<Rightarrow> (Inl err, s)
      | None \<Rightarrow>
          (case writeFile_result e of
             Written \<Rightarrow> (Inr (), s\<lparr>license_file := Json (cached_json d)\<rparr>)
           | Open_failed err \<Rightarrow> (Inr (), console_write [Error_failed_save err] s)
           | Write_failed err \<Rightarrow>
               (Inr (), console_write [Error_failed_save err] (s\<lparr>license_file := NotJson\<rparr>))))"

text \<open>
  \<^verbatim>\<open>loadFromFile\<close>: \<^verbatim>\<open>process.cwd()\<close> stands before the \<^verbatim>\<open>try\<close>, so its error leaves the
  method; a failed read, text that is not JSON and a value the schema refuses all end in
  the \<^verbatim>\<open>catch\<close>, which returns \<^verbatim>\<open>null\<close> and logs nothing.
\<close>

definition loadFromFile :: "env \<Rightarrow> state \<Rightarrow> error + TCachedLicense option" where
  "loadFromFile e s =
     (case cwd_on_load e of
        Some err \<Rightarrow> Inl err
      | None \<Rightarrow>
          Inr (if \<not> readFile_ok e then None
               else case license_file s of
                      NoFile \<Rightarrow> None
                    | NotJson \<Rightarrow> None
                    | Json v \<Rightarrow> ZCachedLicenseSchema_parse v))"

subsection \<open>The remote call and the policy check\<close>

text \<open>
  The object \<^verbatim>\<open>pingLicenseServer\<close> returns when a key is set;
  \<^verbatim>\<open>new Date('2024-01-01')\<close> and \<^verbatim>\<open>new Date('2030-12-31')\<close> are midnight UTC of these days.
\<close>

definition mock_response :: "string \<Rightarrow> license_response" where
  "mock_response k =
     \<lparr>success = True,
      data = Some
        \<lparr>status = ACTIVE,
         createdAt = 1704067200000,
         name = ''Enterprise License (Local)'',
         periodEnd = 1924905600000,
         cancelAtPeriodEnd = False,
         licenseKey = k,
         flags =
           [(''emailDomains'', True),
            (''embedAuthoring'', True),
            (''embedAuthoringWhiteLabel'', True),
            (''cfr21'', True),
            (''authenticationPortal'', True),
            (''billing'', True)]\<rparr>\<rparr>"

text \<open>
  A callee returns its value or the error it throws, the lines it wrote to the console
  and the requests it sent over the network.
\<close>

type_synonym 'a outcome = "(error + 'a) \<times> console_entry list \<times> string list"

definition callee_effects :: "console_entry list \<times> string list \<Rightarrow> state \<Rightarrow> state" where
  "callee_effects fx s = s\<lparr>console := console s @ fst fx, requests := requests s @ snd fx\<rparr>"

text \<open>
  \<^verbatim>\<open>pingLicenseServer\<close>: \<^verbatim>\<open>!LICENSE_KEY\<close> holds of an unset variable and of the empty string.
  The request to the server is a comment in the source; no path sends one.
\<close>

definition pingLicenseServer :: "env \<Rightarrow> license_response option outcome" where
  "pingLicenseServer e =
     (case LICENSE_KEY e of
        None \<Rightarrow> (Inr None, [], [])
      | Some k \<Rightarrow>
          if k = [] then (Inr None, [], [])
          else (Inr (Some (mock_response k)), [Log_bypass_ping], []))"

definition checkUnauthorizedFlagUsage :: "env \<Rightarrow> flags \<Rightarrow> bool outcome" where
  "checkUnauthorizedFlagUsage e licenseFlags = (Inr False, [Log_bypass_check], [])"

subsection \<open>The reconciliation cycle\<close>

text \<open>\<^verbatim>\<open>response?.data\<close>, \<^verbatim>\<open>response?.data?.flags || {}\<close> and \<^verbatim>\<open>response?.data?.status\<close>.\<close>

definition response_data :: "license_response option \<Rightarrow> license_data option" where
  "response_data response = (case response of None \<Rightarrow> None | Some r \<Rightarrow> data r)"

definition response_flags :: "license_response option \<Rightarrow> flags" where
  "response_flags response = (case response_data response of None \<Rightarrow> [] | Some d \<Rightarrow> flags d)"

definition response_status :: "license_response option \<Rightarrow> license_status option" where
  "response_status response = map_option status (response_data response)"

text \<open>
  The three statements that compute \<^verbatim>\<open>status\<close>: it starts as \<^verbatim>\<open>NOT_FOUND\<close>, takes the
  reported status when there is one, and is overwritten when the policy check found
  unauthorized usage.
\<close>

definition derive_status :: "license_response option \<Rightarrow> bool \<Rightarrow> derived_status" where
  "derive_status response unauthorized =
     (let st = NOT_FOUND;
          st = (case response_status response of Some reported \<Rightarrow> Reported reported | None \<Rightarrow> st);
          st = (if unauthorized then UNAUTHORIZED else st)
      in st)"

text \<open>
  \<^verbatim>\<open>initialize\<close>, with the two methods it calls on \<^verbatim>\<open>this\<close> as parameters. An error of
  the remote call is caught; \<^verbatim>\<open>loadFromFile\<close>, the policy check and \<^verbatim>\<open>saveToFile\<close> are
  called outside any \<^verbatim>\<open>try\<close>, so an error of theirs leaves the method.
\<close>

definition initialize_with ::
  "(env \<Rightarrow> license_response option outcome) \<Rightarrow> (env \<Rightarrow> flags \<Rightarrow> bool outcome) \<Rightarrow>
   env \<Rightarrow> nat \<Rightarrow> state \<Rightarrow> (error + unit) \<times> state" where
  "initialize_with ping check e this s0 =
     (let s1 = console_write [Log_checking] s0
      in case loadFromFile e s1 of
           Inl err \<Rightarrow> (Inl err, s1)
         | Inr cached \<Rightarrow>
             (let s2 = (case cached of
                          Some loaded \<Rightarrow> set_cachedLicense this (Some loaded) s1
                        | None \<Rightarrow> s1)
              in case ping e of
                   (Inl err, fx) \<Rightarrow>
                     (Inr (),
                      console_write [Warn_not_responding, Error_object err] (callee_effects fx s2))
                 | (Inr response, fx) \<Rightarrow>
                     (let s3 = callee_effects fx s2;
                          allowedFlags = response_flags response
                      in case check e allowedFlags of
                           (Inl err, fx') \<Rightarrow> (Inl err, callee_effects fx' s3)
                         | (Inr unauthorized, fx') \<Rightarrow>
                             (let s4 = console_write (if unauthorized then [Warn_unauthorized] else [])
                                         (callee_effects fx' s3);
                                  st = derive_status response unauthorized;
                                  d = \<lparr>lastChecked = now e,
                                       license = response_data response,
                                       requestedLicenseKey = LICENSE_KEY e,
                                       unauthorizedFlagUsage = unauthorized,
                                       derivedStatus = st\<rparr>;
                                  s5 = set_cachedLicense this (Some d) s4
                              in case saveToFile e d s5 of
                                   (Inl err, s6) \<Rightarrow> (Inl err, s6)
                                 | (Inr _, s6) \<Rightarrow>
                                     (Inr (),
                                      console_write
                                        [Log_completed,
                                         Log_unauthorized_usage unauthorized,
                                         Log_derived_status st,
                                         Log_status (response_status response),
                                         Log_flags allowedFlags] s6)))))"

definition initialize :: "env \<Rightarrow> nat \<Rightarrow> state \<Rightarrow> (error + unit) \<times> state" where
  "initialize = initialize_with pingLicenseServer checkUnauthorizedFlagUsage"

subsection \<open>The public methods\<close>

text \<open>
  \<^verbatim>\<open>start\<close>: nothing happens when the global is set; otherwise a new object is made, the
  global is set to it, and the cycle runs inside a \<^verbatim>\<open>try\<close> whose \<^verbatim>\<open>catch\<close> logs.
\<close>

definition start_with ::
  "(env \<Rightarrow> license_response option outcome) \<Rightarrow> (env \<Rightarrow> flags \<Rightarrow> bool outcome) \<Rightarrow>
   env \<Rightarrow> state \<Rightarrow> (error + unit) \<times> state" where
  "start_with ping check e s =
     (case global_client s of
        Some _ \<Rightarrow> (Inr (), s)
      | None \<Rightarrow>
          (let instance = length (heap s);
               s1 = s\<lparr>heap := heap s @ [\<lparr>cachedLicense = None\<rparr>]\<rparr>;
               s2 = s1\<lparr>global_client := Some instance\<rparr>
           in case initialize_with ping check e instance s2 of
                (Inl err, s3) \<Rightarrow> (Inr (), console_write [Error_failed_verify err] s3)
              | (Inr _, s3) \<Rightarrow> (Inr (), s3)))"

definition start :: "env \<Rightarrow> state \<Rightarrow> (error + unit) \<times> state" where
  "start = start_with pingLicenseServer checkUnauthorizedFlagUsage"

definition getInstance :: "state \<Rightarrow> nat option" where
  "getInstance s = global_client s"

definition getCachedLicense :: "env \<Rightarrow> nat \<Rightarrow> state \<Rightarrow> error + TCachedLicense option" where
  "getCachedLicense e this s =
     (case get_cachedLicense this s of
        Some c \<Rightarrow> Inr (Some c)
      | None \<Rightarrow> loadFromFile e s)"



text \<open>The number of cycles that have run: each writes one \<open>Log_checking\<close> at its start.\<close>

definition cycles_run :: "state \<Rightarrow> nat" where
  "cycles_run s = length (filter (\<lambda>l. l = Log_checking) (console s))"

subsection \<open>The policy check as the spec words it\<close>

text \<open>
  The spec's Policy Checker, for comparison with \<open>checkUnauthorizedFlagUsage\<close>: true if a
  claim in the host's records requests an enterprise flag that is not true in the
  granted flags, or if billing is enabled on the host and not granted.
\<close>

definition granted :: "flags \<Rightarrow> string \<Rightarrow> bool" where
  "granted grantedFlags k = (map_of grantedFlags k = Some True)"

definition findUnauthorizedUsage_spec :: "host \<Rightarrow> flags \<Rightarrow> bool" where
  "findUnauthorizedUsage_spec h grantedFlags =
     (list_ex (\<lambda>claim. list_ex (\<lambda>k. map_of claim k = Some True \<and> \<not> granted grantedFlags k)
                           (enterpriseFlags h))
              (organisationClaims h)
      \<or> (IS_BILLING_ENABLED h \<and> \<not> granted grantedFlags ''billing''))"

subsection \<open>Valid records\<close>

text \<open>A cached license whose dates, if it has a license record, are valid dates.\<close>

definition valid_cached :: "TCachedLicense \<Rightarrow> bool" where
  "valid_cached c =
     (case license c of
        None \<Rightarrow> True
      | Some l \<Rightarrow> valid_date (createdAt l) \<and> valid_date (periodEnd l))"

subsection \<open>Concrete inputs\<close>

definition example_host :: host where
  "example_host =
     \<lparr>IS_BILLING_ENABLED = True,
      enterpriseFlags = [''emailDomains'', ''embedAuthoring'', ''cfr21''],
      organisationClaims = [[(''cfr21'', True)]]\<rparr>"

definition example_env :: env where
  "example_env =
     \<lparr>LICENSE_KEY = Some ''license-key'',
      now = ''2026-11-03T09:00:00.000Z'',
      cwd_on_load = None,
      cwd_on_save = None,
      readFile_ok = True,
      writeFile_result = Written,
      host = example_host\<rparr>"

definition example_env_no_key :: env where
  "example_env_no_key = example_env\<lparr>LICENSE_KEY := None\<rparr>"

definition example_env_open_fails :: env where
  "example_env_open_fails = example_env\<lparr>writeFile_result := Open_failed (Error ''EACCES'')\<rparr>"


definition example_env_cwd_removed :: env where
  "example_env_cwd_removed =
     example_env\<lparr>cwd_on_load := Some (Error ''ENOENT: uv_cwd''),
                  cwd_on_save := Some (Error ''ENOENT: uv_cwd'')\<rparr>"

definition example_cached :: TCachedLicense where
  "example_cached =
     \<lparr>lastChecked = ''2026-10-01T08:00:00.000Z'',
      license = data (mock_response ''license-key''),
      requestedLicenseKey = Some ''license-key'',
      unauthorizedFlagUsage = False,
      derivedStatus = Reported ACTIVE\<rparr>"

definition example_cached_other_dates :: TCachedLicense where
  "example_cached_other_dates =
     \<lparr>lastChecked = ''2026-10-01T08:00:00.000Z'',
      license = Some
        \<lparr>status = CANCELED, createdAt = - 1, name = ''Team'',
         periodEnd = 253402300800000, cancelAtPeriodEnd = True,
         licenseKey = ''other-key'', flags = [(''cfr21'', False)]\<rparr>,
      requestedLicenseKey = None,
      unauthorizedFlagUsage = False,
      derivedStatus = Reported CANCELED\<rparr>"

definition example_fresh :: state where
  "example_fresh =
     \<lparr>license_file = NoFile, heap = [], global_client = None, console = [], requests = []\<rparr>"

definition example_started :: state where
  "example_started =
     \<lparr>license_file = NoFile, heap = [\<lparr>cachedLicense = None\<rparr>],
      global_client = Some 0, console = [], requests = []\<rparr>"

definition example_started_with_file :: state where
  "example_started_with_file =
     example_started\<lparr>license_file := Json (cached_json example_cached)\<rparr>"

text \<open>
  Callees other than the two of the source: a remote call that fails, one that reports an
  expired license, one whose response carries no data, a policy check that finds
  unauthorized usage, and a policy check that raises.
\<close>

definition ping_unreachable :: "env \<Rightarrow> license_response option outcome" where
  "ping_unreachable e =
     (Inl (Error ''fetch failed''), [], [''https://license.documenso.com/api/license''])"

definition ping_expired :: "env \<Rightarrow> license_response option outcome" where
  "ping_expired e =
     (Inr (Some \<lparr>success = True,
                 data = Some
                   \<lparr>status = EXPIRED, createdAt = 1704067200000, name = ''Enterprise'',
                    periodEnd = 1735689600000, cancelAtPeriodEnd = True,
                    licenseKey = ''license-key'', flags = [(''billing'', True)]\<rparr>\<rparr>),
      [], [''https://license.documenso.com/api/license''])"

definition ping_no_data :: "env \<Rightarrow> license_response option outcome" where
  "ping_no_data e =
     (Inr (Some \<lparr>success = False, data = None\<rparr>),
      [], [''https://license.documenso.com/api/license''])"

definition check_usage_found :: "env \<Rightarrow> flags \<Rightarrow> bool outcome" where
  "check_usage_found e licenseFlags = (Inr True, [], [])"


section \<open>Properties\<close>

subsection \<open>The year of a day\<close>

lemma div_bounds:
  fixes a n :: int
  assumes "0 < n"
  shows "n * (a div n) \<le> a" and "a < n * (a div n) + n"
proof -
  have "n * (a div n) + a mod n = a" by (rule mult_div_mod_eq)
  moreover have "0 \<le> a mod n" "a mod n < n" using assms by simp_all
  ultimately show "n * (a div n) \<le> a" and "a < n * (a div n) + n" by linarith+
qed

lemma mod_shift:
  fixes y :: int
  shows "(y - c * n) mod n = y mod n"
proof -
  have "(y + (- c) * n) mod n = y mod n" by (rule mod_mult_self1)
  then show ?thesis by simp
qed

lemma div_step:
  fixes a n :: int
  assumes "0 < n"
  shows "(a + 1) div n = a div n + (if (a + 1) mod n = 0 then 1 else 0)"
proof -
  define q where "q = a div n"
  define r where "r = a mod n"
  have a: "a = q * n + r" and r: "0 \<le> r" "r < n"
    using assms by (simp_all add: q_def r_def)
  show ?thesis
  proof (cases "r + 1 = n")
    case True
    then have "a + 1 = (q + 1) * n" using a by (simp add: algebra_simps)
    then have "(a + 1) div n = q + 1" and "(a + 1) mod n = 0" using assms by simp_all
    then show ?thesis by (simp add: q_def)
  next
    case False
    then have lt: "r + 1 < n" using r by simp
    have eq: "a + 1 = q * n + (r + 1)" using a by simp
    have "(a + 1) div n = q" 
      unfolding eq using r lt assms by (simp add: div_pos_pos_trivial)
    moreover have "(a + 1) mod n = r + 1"
      unfolding eq using r lt assms by (simp add: mod_pos_pos_trivial)
    ultimately show ?thesis using r by (simp add: q_def)
  qed
qed

lemma DaysInYear: "DayFromYear (y + 1) - DayFromYear y = (if InLeapYear y then 366 else 365)"
proof -
  define A where "A = (y - 1969) div 4"
  define B where "B = (y - 1901) div 100"
  define C where "C = (y - 1601) div 400"
  define i4 :: int where "i4 = (if y mod 4 = 0 then 1 else 0)"
  define i100 :: int where "i100 = (if y mod 100 = 0 then 1 else 0)"
  define i400 :: int where "i400 = (if y mod 400 = 0 then 1 else 0)"
  have m4: "(y - 1969 + 1) mod 4 = y mod 4"
  proof -
    have "y - 1969 + 1 = y - 492 * 4" by simp
    then show ?thesis by (simp only: mod_shift)
  qed
  have m100: "(y - 1901 + 1) mod 100 = y mod 100"
  proof -
    have "y - 1901 + 1 = y - 19 * 100" by simp
    then show ?thesis by (simp only: mod_shift)
  qed
  have m400: "(y - 1601 + 1) mod 400 = y mod 400"
  proof -
    have "y - 1601 + 1 = y - 4 * 400" by simp
    then show ?thesis by (simp only: mod_shift)
  qed
  have s4: "(y - 1969 + 1) div 4 = A + i4"
    using div_step [of 4 "y - 1969"] unfolding m4 A_def i4_def by simp
  have s100: "(y - 1901 + 1) div 100 = B + i100"
    using div_step [of 100 "y - 1901"] unfolding m100 B_def i100_def by simp
  have s400: "(y - 1601 + 1) div 400 = C + i400"
    using div_step [of 400 "y - 1601"] unfolding m400 C_def i400_def by simp
  have e: "y + 1 - 1969 = y - 1969 + 1" "y + 1 - 1901 = y - 1901 + 1" "y + 1 - 1601 = y - 1601 + 1"
    by simp_all
  have D1: "DayFromYear (y + 1) = 365 * (y + 1 - 1970) + (A + i4) - (B + i100) + (C + i400)"
    unfolding DayFromYear_def e s4 s100 s400 ..
  have D0: "DayFromYear y = 365 * (y - 1970) + A - B + C"
    unfolding DayFromYear_def A_def B_def C_def ..
  have diff: "DayFromYear (y + 1) - DayFromYear y = 365 + i4 - i100 + i400"
    unfolding D1 D0 by simp
  define p4 where "p4 \<longleftrightarrow> y mod 4 = 0"
  define p100 where "p100 \<longleftrightarrow> y mod 100 = 0"
  define p400 where "p400 \<longleftrightarrow> y mod 400 = 0"
  have d1: "p400 \<Longrightarrow> p100"
    unfolding p400_def p100_def
    using dvd_trans [of "100 :: int" 400 y] by (simp add: mod_eq_0_iff_dvd)
  have d2: "p100 \<Longrightarrow> p4"
    unfolding p100_def p4_def
    using dvd_trans [of "4 :: int" 100 y] by (simp add: mod_eq_0_iff_dvd)
  have i: "i4 = (if p4 then 1 else 0)" "i100 = (if p100 then 1 else 0)"
    "i400 = (if p400 then 1 else 0)"
    unfolding i4_def i100_def i400_def p4_def p100_def p400_def by (rule refl)+
  have l: "InLeapYear y \<longleftrightarrow> p4 \<and> (\<not> p100 \<or> p400)"
    unfolding InLeapYear_def p4_def p100_def p400_def ..
  show ?thesis
    unfolding diff l i using d1 d2 by (cases p4; cases p100; cases p400) simp_all
qed

lemma DayFromYear_bounds:
  "146097 * y - 287813090 \<le> 400 * DayFromYear y"
  "400 * DayFromYear y \<le> 146097 * y - 287809090"
proof -
  define q4 where "q4 = (y - 1969) div 4"
  define q100 where "q100 = (y - 1901) div 100"
  define q400 where "q400 = (y - 1601) div 400"
  have b: "4 * q4 \<le> y - 1969" "y - 1969 < 4 * q4 + 4"
       "100 * q100 \<le> y - 1901" "y - 1901 < 100 * q100 + 100"
       "400 * q400 \<le> y - 1601" "y - 1601 < 400 * q400 + 400"
    unfolding q4_def q100_def q400_def by (simp_all add: div_bounds)
  have d: "400 * DayFromYear y = 146000 * y - 287620000 + 400 * q4 - 400 * q100 + 400 * q400"
    by (simp add: DayFromYear_def q4_def q100_def q400_def)
  show "146097 * y - 287813090 \<le> 400 * DayFromYear y"
    unfolding d using b by linarith
  show "400 * DayFromYear y \<le> 146097 * y - 287809090"
    unfolding d using b by linarith
qed

lemma YearFromDay_correct:
  "DayFromYear (YearFromDay z) \<le> z" "z < DayFromYear (YearFromDay z + 1)"
proof -
  define k where "k = (400 * z) div 146097"
  have k: "146097 * k \<le> 400 * z" "400 * z < 146097 * k + 146097"
    unfolding k_def by (simp_all add: div_bounds)
  define a where "a = 1969 + k"
  define c where "c = 1972 + k"
  have ea: "146097 * a = 146097 * k + 287664993" by (simp add: a_def)
  have ec: "146097 * c = 146097 * k + 288103284" by (simp add: c_def)
  have "400 * DayFromYear a \<le> 146097 * a - 287809090"
    by (rule DayFromYear_bounds)
  then have lo: "DayFromYear a \<le> z"
    unfolding ea using k by linarith
  have "146097 * c - 287813090 \<le> 400 * DayFromYear c"
    by (rule DayFromYear_bounds)
  then have hi: "z < DayFromYear c"
    unfolding ec using k by linarith
  have y: "YearFromDay z =
     (if z < DayFromYear (1970 + k) then a
      else if DayFromYear (1971 + k) \<le> z then 1971 + k
      else 1970 + k)"
    by (simp add: YearFromDay_def Let_def k_def a_def algebra_simps)
  have a1: "a + 1 = 1970 + k" and c1: "1971 + k + 1 = c" and m1: "1970 + k + 1 = 1971 + k"
    by (simp_all add: a_def c_def)
  show "DayFromYear (YearFromDay z) \<le> z"
    unfolding y using lo by auto
  show "z < DayFromYear (YearFromDay z + 1)"
    unfolding y using hi by (auto simp add: a1 c1 m1)
qed

lemma YearFromDay_range:
  assumes "- 100000000 \<le> z" and "z \<le> 100000000"
  shows "- 300000 \<le> YearFromDay z" "YearFromDay z \<le> 300000"
proof -
  define y where "y = YearFromDay z"
  define y' where "y' = y + 1"
  have 1: "DayFromYear y \<le> z" and 2: "z < DayFromYear y'"
    unfolding y_def y'_def by (rule YearFromDay_correct)+
  have 3: "146097 * y - 287813090 \<le> 400 * DayFromYear y"
    and 4: "400 * DayFromYear y' \<le> 146097 * y' - 287809090"
    by (rule DayFromYear_bounds)+
  have e: "146097 * y' = 146097 * y + 146097" by (simp add: y'_def)
  show "- 300000 \<le> YearFromDay z"
    using 2 4 assms unfolding y_def [symmetric] e by linarith
  show "YearFromDay z \<le> 300000"
    using 1 3 assms unfolding y_def [symmetric] by linarith
qed

subsection \<open>Digits\<close>

lemma digit_value_digit_char: "d < 10 \<Longrightarrow> digit_value (digit_char d) = Some d"
  by (simp add: digit_value_def digit_char_def Let_def)

lemma digit_char_not_sign:
  assumes "d < 10"
  shows "digit_char d \<noteq> CHR ''+''" and "digit_char d \<noteq> CHR ''-''"
proof -
  have v: "of_char (digit_char d) = 48 + d"
    using assms by (simp add: digit_char_def)
  show "digit_char d \<noteq> CHR ''+''"
  proof
    assume "digit_char d = CHR ''+''"
    then have "(of_char (digit_char d) :: nat) = of_char CHR ''+''" by simp
    with v show False by simp
  qed
  show "digit_char d \<noteq> CHR ''-''"
  proof
    assume "digit_char d = CHR ''-''"
    then have "(of_char (digit_char d) :: nat) = of_char CHR ''-''" by simp
    with v show False by simp
  qed
qed

lemma take_digits_pad:
  "take_digits k acc (pad k n @ rest) = Some (acc * 10 ^ k + n mod 10 ^ k, rest)"
proof (induction k arbitrary: acc)
  case 0
  then show ?case by simp
next
  case (Suc k)
  have d: "n div 10 ^ k mod 10 < 10" by simp
  have e: "n mod (10 * 10 ^ k) = n mod 10 ^ k + 10 ^ k * (n div 10 ^ k mod 10)"
    using mod_mult2_eq [of n "10 ^ k" 10] by (simp add: mult.commute)
  show ?case
    by (simp add: digit_value_digit_char [OF d] Suc.IH e algebra_simps)
qed

lemma take_digits_pad_small:
  "n < 10 ^ k \<Longrightarrow> take_digits k 0 (pad k n @ rest) = Some (n, rest)"
  by (simp add: take_digits_pad)

lemma expect_Cons [simp]: "expect c (c # s) = Some s"
  by (simp add: expect_def)

subsection \<open>A date read back from its string\<close>

lemma read_year_year_string:
  assumes "- 999999 \<le> y" and "y \<le> 999999"
  shows "read_year (year_string y @ rest) = Some (y, rest)"
proof (cases "0 \<le> y \<and> y \<le> 9999")
  case True
  define n where "n = nat y"
  have n: "n < 10 ^ 4" "int n = y" using True by (auto simp add: n_def)
  have p: "pad 4 n = digit_char (n div 1000 mod 10) # pad 3 n"
  proof -
    have "pad (Suc 3) n = digit_char (n div 10 ^ 3 mod 10) # pad 3 n" by (rule pad.simps)
    then show ?thesis by simp
  qed
  have d: "n div 1000 mod 10 < 10" by simp
  note sign = digit_char_not_sign [OF d]
  have t: "take_digits 4 0 (pad 4 n @ rest) = Some (n, rest)"
    using n(1) by (rule take_digits_pad_small)
  have r: "read_year (pad 4 n @ rest) = Some (int n, rest)"
    unfolding read_year_def using t
    by (simp add: p sign del: pad.simps take_digits.simps)
  have ys: "year_string y = pad 4 n"
    using True by (simp add: year_string_def n_def)
  show ?thesis by (simp only: ys r n(2))
next
  case False
  define n where "n = nat \<bar>y\<bar>"
  have n: "n < 10 ^ 6" "n \<noteq> 0" using False assms by (auto simp add: n_def)
  have t: "take_digits 6 0 (pad 6 n @ rest) = Some (n, rest)"
    using n(1) by (rule take_digits_pad_small)
  show ?thesis
  proof (cases "y < 0")
    case True
    then have e: "- int n = y" by (simp add: n_def)
    have ys: "year_string y = CHR ''-'' # pad 6 n"
      using False True by (simp add: year_string_def n_def)
    have "read_year (CHR ''-'' # pad 6 n @ rest) = Some (- int n, rest)"
      unfolding read_year_def using t n(2)
      by (simp del: pad.simps take_digits.simps)
    then show ?thesis by (simp only: ys e append_Cons)
  next
    case neg: False
    then have e: "int n = y" by (simp add: n_def)
    have ys: "year_string y = CHR ''+'' # pad 6 n"
      using False neg by (simp add: year_string_def n_def)
    have "read_year (CHR ''+'' # pad 6 n @ rest) = Some (int n, rest)"
      unfolding read_year_def using t
      by (simp del: pad.simps take_digits.simps)
    then show ?thesis by (simp only: ys e append_Cons)
  qed
qed

lemma month_date:
  assumes "0 \<le> d" and "d < (if leap then 366 else 365)"
  shows "1 \<le> MonthFromDay leap d" and "MonthFromDay leap d \<le> 12"
    and "days_before_month leap (MonthFromDay leap d) \<le> d"
    and "d - days_before_month leap (MonthFromDay leap d) < 31"
  using assms
  by (auto simp add: MonthFromDay_def days_before_month_def Let_def split: if_splits)

lemma time_fields:
  fixes n :: nat
  assumes "n < 86400000"
  shows "n div 3600000 < 24"
    and "int (n div 3600000) * 3600000 + int (n div 60000 mod 60) * 60000
           + int (n div 1000 mod 60) * 1000 + int (n mod 1000) = int n"
proof -
  show "n div 3600000 < 24" using assms by (simp add: div_less_iff_less_mult)
  define a where "a = n div 1000"
  define b where "b = a div 60"
  define c where "c = b div 60"
  have e1: "n div 60000 = b" unfolding b_def a_def by (simp add: div_mult2_eq)
  have e2: "n div 3600000 = c" unfolding c_def b_def a_def by (simp add: div_mult2_eq)
  have n: "n = 1000 * a + n mod 1000" unfolding a_def by simp
  have a: "a = 60 * b + a mod 60" unfolding b_def by simp
  have b: "b = 60 * c + b mod 60" unfolding c_def by simp
  have "c * 3600000 + (b mod 60) * 60000 + (a mod 60) * 1000 + n mod 1000 = n"
    using n a b by linarith
  then have "int (c * 3600000 + (b mod 60) * 60000 + (a mod 60) * 1000 + n mod 1000) = int n"
    by simp
  then show "int (n div 3600000) * 3600000 + int (n div 60000 mod 60) * 60000
           + int (n div 1000 mod 60) * 1000 + int (n mod 1000) = int n"
    unfolding e1 e2 a_def [symmetric] by simp
qed

lemma newDate_toISOString:
  assumes "valid_date t"
  shows "newDate (toISOString t) = Some t"
proof -
  define day where "day = t div 86400000"
  define ms where "ms = nat (t mod 86400000)"
  define y where "y = YearFromDay day"
  define leap where "leap = InLeapYear y"
  define d where "d = day - DayFromYear y"
  define m where "m = MonthFromDay leap d"
  define date where "date = nat (d - days_before_month leap m) + 1"
  have t: "t = day * 86400000 + int ms" and ms: "ms < 86400000"
    unfolding day_def ms_def by simp_all
  have range: "\<bar>t\<bar> \<le> 8640000000000000" using assms by (simp add: valid_date_def)
  have db: "86400000 * day \<le> t" "t < 86400000 * day + 86400000"
    unfolding day_def by (simp_all add: div_bounds)
  have day: "- 100000000 \<le> day" "day \<le> 100000000"
    using db range by linarith+
  have y: "- 999999 \<le> y" "y \<le> 999999"
    using YearFromDay_range [OF day] unfolding y_def by linarith+
  have d0: "0 \<le> d" unfolding d_def y_def using YearFromDay_correct(1) [of day] by simp
  have "day < DayFromYear (y + 1)" unfolding y_def by (rule YearFromDay_correct(2))
  then have d1: "d < (if leap then 366 else 365)"
    using DaysInYear [of y] unfolding d_def leap_def by (simp split: if_splits)
  note md = month_date [OF d0 d1, folded m_def]
  have m: "m < 10 ^ 2" using md(2) by simp
  have date: "date < 10 ^ 2" "1 \<le> date" "date \<le> 31"
    and de: "int date = d - days_before_month leap m + 1"
    using md(3,4) unfolding date_def by simp_all
  note tf = time_fields [OF ms]
  have h: "ms div 3600000 < 10 ^ 2" using tf(1) by simp
  have mi: "ms div 60000 mod 60 < 10 ^ 2" "ms div 60000 mod 60 \<le> 59"
    and sec: "ms div 1000 mod 60 < 10 ^ 2" "ms div 1000 mod 60 \<le> 59"
    and mil: "ms mod 1000 < 10 ^ 3"
    by simp_all
  have h23: "ms div 3600000 \<le> 23" using tf(1) by simp
  have s: "toISOString t =
      year_string y @ ''-'' @ pad 2 m @ ''-'' @ pad 2 date @ ''T''
        @ pad 2 (ms div 3600000) @ '':'' @ pad 2 (ms div 60000 mod 60) @ '':''
        @ pad 2 (ms div 1000 mod 60) @ ''.'' @ pad 3 (ms mod 1000) @ ''Z''"
    unfolding toISOString_def Let_def day_def ms_def y_def leap_def d_def m_def date_def ..
  have total: "MakeDate (MakeDay y m date) (MakeTime (ms div 3600000) (ms div 60000 mod 60)
       (ms div 1000 mod 60) (ms mod 1000)) = t"
  proof -
    have "MakeDay y m date = day"
      unfolding MakeDay_def leap_def [symmetric] de d_def by simp
    moreover have "MakeTime (ms div 3600000) (ms div 60000 mod 60) (ms div 1000 mod 60)
        (ms mod 1000) = int ms"
      unfolding MakeTime_def by (rule tf(2))
    ultimately show ?thesis using t by (simp add: MakeDate_def)
  qed
  show ?thesis
    unfolding s newDate_def
    using md(1,2) date(2,3) h23 mi(2) sec(2) range
    by (simp add: read_year_year_string [OF y] take_digits_pad_small [OF m]
        take_digits_pad_small [OF date(1)] take_digits_pad_small [OF h]
        take_digits_pad_small [OF mi(1)] take_digits_pad_small [OF sec(1)]
        take_digits_pad_small [OF mil] total TimeClip_def
        del: pad.simps take_digits.simps)
qed

subsection \<open>Reading back what was written\<close>

lemma status_of_string_status_string [simp]: "status_of_string (status_string st) = Some st"
  by (cases st) (simp_all add: status_of_string_def)

lemma derived_status_of_string_string [simp]:
  "derived_status_of_string (derived_status_string d) = Some d"
proof (cases d)
  case (Reported st)
  then show ?thesis
    by (cases st) (simp_all add: derived_status_of_string_def status_of_string_def)
qed (simp_all add: derived_status_of_string_def)

lemma flags_of_fields_flags_json [simp]:
  "flags_of_fields (map (\<lambda>(k, b). (k, JBool b)) fl) = Some fl"
  by (induction fl) auto

lemma license_field_license_json:
  assumes "valid_date (createdAt l)" and "valid_date (periodEnd l)"
  shows "license_field (Some (license_json l)) = Some (Some l)"
  using assms
  by (simp add: license_json_def license_of_fields_def date_field_def flags_json_def
      newDate_toISOString)

lemma parse_cached_json:
  assumes "valid_cached c"
  shows "ZCachedLicenseSchema_parse (cached_json c) = Some c"
proof (cases "license c")
  case None
  then show ?thesis
    by (cases "requestedLicenseKey c")
       (simp_all add: cached_json_def cached_of_fields_def)
next
  case (Some l)
  with assms have "license_field (Some (license_json l)) = Some (Some l)"
    by (simp add: valid_cached_def license_field_license_json)
  with Some show ?thesis
    by (cases "requestedLicenseKey c")
       (simp_all add: cached_json_def cached_of_fields_def)
qed

lemma valid_cached_example: "valid_cached example_cached"
  by (simp add: valid_cached_def valid_date_def example_cached_def mock_response_def)

lemma loadFromFile_example:
  "loadFromFile example_env example_started_with_file = Inr (Some example_cached)"
  by (simp add: loadFromFile_def example_started_with_file_def parse_cached_json
      valid_cached_example example_env_def)

subsection \<open>Effects of the helpers on the state\<close>

lemma heap_console_write [simp]: "heap (console_write out s) = heap s"
  by (simp add: console_write_def)

lemma license_file_console_write [simp]: "license_file (console_write out s) = license_file s"
  by (simp add: console_write_def)

lemma global_client_console_write [simp]: "global_client (console_write out s) = global_client s"
  by (simp add: console_write_def)

lemma console_console_write [simp]: "console (console_write out s) = console s @ out"
  by (simp add: console_write_def)

lemma requests_console_write [simp]: "requests (console_write out s) = requests s"
  by (simp add: console_write_def)

lemma heap_callee_effects [simp]: "heap (callee_effects fx s) = heap s"
  by (simp add: callee_effects_def)

lemma license_file_callee_effects [simp]: "license_file (callee_effects fx s) = license_file s"
  by (simp add: callee_effects_def)

lemma global_client_callee_effects [simp]: "global_client (callee_effects fx s) = global_client s"
  by (simp add: callee_effects_def)

lemma console_callee_effects [simp]: "console (callee_effects fx s) = console s @ fst fx"
  by (simp add: callee_effects_def)

lemma requests_callee_effects [simp]: "requests (callee_effects fx s) = requests s @ snd fx"
  by (simp add: callee_effects_def)

lemma heap_set_cachedLicense [simp]:
  "heap (set_cachedLicense this v s) = (heap s)[this := \<lparr>cachedLicense = v\<rparr>]"
  by (simp add: set_cachedLicense_def)

lemma license_file_set_cachedLicense [simp]:
  "license_file (set_cachedLicense this v s) = license_file s"
  by (simp add: set_cachedLicense_def)

lemma global_client_set_cachedLicense [simp]:
  "global_client (set_cachedLicense this v s) = global_client s"
  by (simp add: set_cachedLicense_def)

lemma console_set_cachedLicense [simp]:
  "console (set_cachedLicense this v s) = console s"
  by (simp add: set_cachedLicense_def)

lemma requests_set_cachedLicense [simp]:
  "requests (set_cachedLicense this v s) = requests s"
  by (simp add: set_cachedLicense_def)

lemma fst_saveToFile:
  "fst (saveToFile e d s) = (case cwd_on_save e of Some err \<Rightarrow> Inl err | None \<Rightarrow> Inr ())"
  by (simp add: saveToFile_def split: option.splits write_result.splits)

lemma heap_saveToFile [simp]: "heap (snd (saveToFile e d s)) = heap s"
  by (simp add: saveToFile_def split: option.splits write_result.splits)

lemma global_client_saveToFile [simp]:
  "global_client (snd (saveToFile e d s)) = global_client s"
  by (simp add: saveToFile_def split: option.splits write_result.splits)

lemma requests_saveToFile [simp]: "requests (snd (saveToFile e d s)) = requests s"
  by (simp add: saveToFile_def split: option.splits write_result.splits)

lemma license_file_saveToFile:
  "license_file (snd (saveToFile e d s)) =
     (case cwd_on_save e of
        Some err \<Rightarrow> license_file s
      | None \<Rightarrow>
          (case writeFile_result e of
             Written \<Rightarrow> Json (cached_json d)
           | Open_failed err \<Rightarrow> license_file s
           | Write_failed err \<Rightarrow> NotJson))"
  by (simp add: saveToFile_def split: option.splits write_result.splits)

lemma console_saveToFile:
  "console (snd (saveToFile e d s)) =
     console s @
       (case cwd_on_save e of
          Some err \<Rightarrow> []
        | None \<Rightarrow>
            (case writeFile_result e of
               Written \<Rightarrow> []
             | Open_failed err \<Rightarrow> [Error_failed_save err]
             | Write_failed err \<Rightarrow> [Error_failed_save err]))"
  by (simp add: saveToFile_def split: option.splits write_result.splits)

lemma get_set_cachedLicense [simp]:
  "this < length (heap s) \<Longrightarrow> get_cachedLicense this (set_cachedLicense this v s) = v"
  by (simp add: get_cachedLicense_def)

lemma get_cachedLicense_console_write [simp]:
  "get_cachedLicense this (console_write out s) = get_cachedLicense this s"
  by (simp add: get_cachedLicense_def)

lemma get_cachedLicense_callee_effects [simp]:
  "get_cachedLicense this (callee_effects fx s) = get_cachedLicense this s"
  by (simp add: get_cachedLicense_def)

lemma get_cachedLicense_saveToFile [simp]:
  "get_cachedLicense this (snd (saveToFile e d s)) = get_cachedLicense this s"
  by (simp add: get_cachedLicense_def)

lemma loadFromFile_console_write [simp]:
  "loadFromFile e (console_write out s) = loadFromFile e s"
  by (simp add: loadFromFile_def split: option.splits)




subsection \<open>What a cycle returns and what it leaves alone\<close>

text \<open>A cycle whose load throws has written its first line and nothing else.\<close>

lemma initialize_with_load_throws:
  assumes "loadFromFile e s = Inl err"
  shows "initialize_with ping check e this s = (Inl err, console_write [Log_checking] s)"
  using assms by (simp add: initialize_with_def Let_def)

text \<open>The cycle, with the results of the callees taken apart by \<open>fst\<close> and \<open>snd\<close>.\<close>

lemma initialize_with_unfold:
  "initialize_with ping check e this s =
     (case loadFromFile e s of
        Inl err \<Rightarrow> (Inl err, console_write [Log_checking] s)
      | Inr cached \<Rightarrow>
          (let s2 = (case cached of
                       Some loaded \<Rightarrow> set_cachedLicense this (Some loaded) (console_write [Log_checking] s)
                     | None \<Rightarrow> console_write [Log_checking] s)
           in case fst (ping e) of
                Inl err \<Rightarrow>
                  (Inr (), console_write [Warn_not_responding, Error_object err]
                             (callee_effects (snd (ping e)) s2))
              | Inr response \<Rightarrow>
                  (let s3 = callee_effects (snd (ping e)) s2;
                       ck = check e (response_flags response)
                   in case fst ck of
                        Inl err \<Rightarrow> (Inl err, callee_effects (snd ck) s3)
                      | Inr unauthorized \<Rightarrow>
                          (let d = \<lparr>lastChecked = now e,
                                    license = response_data response,
                                    requestedLicenseKey = LICENSE_KEY e,
                                    unauthorizedFlagUsage = unauthorized,
                                    derivedStatus = derive_status response unauthorized\<rparr>;
                               sv = saveToFile e d
                                      (set_cachedLicense this (Some d)
                                        (console_write (if unauthorized then [Warn_unauthorized] else [])
                                          (callee_effects (snd ck) s3)))
                           in case fst sv of
                                Inl err \<Rightarrow> (Inl err, snd sv)
                              | Inr u \<Rightarrow>
                                  (Inr (),
                                   console_write
                                     [Log_completed,
                                      Log_unauthorized_usage unauthorized,
                                      Log_derived_status (derive_status response unauthorized),
                                      Log_status (response_status response),
                                      Log_flags (response_flags response)] (snd sv))))))"
  by (simp add: initialize_with_def Let_def split: sum.splits prod.splits option.splits)

lemma fst_initialize_with:
  "fst (initialize_with ping check e this s) =
     (case loadFromFile e s of
        Inl err \<Rightarrow> Inl err
      | Inr cached \<Rightarrow>
          (case fst (ping e) of
             Inl err \<Rightarrow> Inr ()
           | Inr response \<Rightarrow>
               (case fst (check e (response_flags response)) of
                  Inl err \<Rightarrow> Inl err
                | Inr unauthorized \<Rightarrow>
                    (case cwd_on_save e of Some err \<Rightarrow> Inl err | None \<Rightarrow> Inr ()))))"
  by (simp add: initialize_with_unfold Let_def fst_saveToFile split: sum.splits option.splits)

lemma global_client_initialize_with [simp]:
  "global_client (snd (initialize_with ping check e this s)) = global_client s"
  by (simp add: initialize_with_unfold Let_def split: sum.splits option.splits)

lemma length_heap_initialize_with [simp]:
  "length (heap (snd (initialize_with ping check e this s))) = length (heap s)"
  by (simp add: initialize_with_unfold Let_def split: sum.splits option.splits)

subsection \<open>A cycle whose remote call and policy check both return\<close>

lemma initialize_with_memory:
  assumes "this < length (heap s)"
    and "loadFromFile e s = Inr cached"
    and "fst (ping e) = Inr response"
    and "fst (check e (response_flags response)) = Inr unauthorized"
  shows "get_cachedLicense this (snd (initialize_with ping check e this s)) =
      Some \<lparr>lastChecked = now e, license = response_data response,
            requestedLicenseKey = LICENSE_KEY e, unauthorizedFlagUsage = unauthorized,
            derivedStatus = derive_status response unauthorized\<rparr>"
  using assms
  by (simp add: initialize_with_unfold Let_def split: sum.splits option.splits)

lemma initialize_with_file:
  assumes "loadFromFile e s = Inr cached"
    and "fst (ping e) = Inr response"
    and "fst (check e (response_flags response)) = Inr unauthorized"
  shows "license_file (snd (initialize_with ping check e this s)) =
      (case cwd_on_save e of
         Some err \<Rightarrow> license_file s
       | None \<Rightarrow>
           (case writeFile_result e of
              Written \<Rightarrow> Json (cached_json
                   \<lparr>lastChecked = now e, license = response_data response,
                    requestedLicenseKey = LICENSE_KEY e, unauthorizedFlagUsage = unauthorized,
                    derivedStatus = derive_status response unauthorized\<rparr>)
            | Open_failed err \<Rightarrow> license_file s
            | Write_failed err \<Rightarrow> NotJson))"
  using assms
  by (simp add: initialize_with_unfold Let_def license_file_saveToFile
      split: sum.splits option.splits write_result.splits)

lemma initialize_with_unreachable:
  assumes "loadFromFile e s = Inr cached" and "fst (ping e) = Inl err"
  shows "fst (initialize_with ping check e this s) = Inr ()"
    and "license_file (snd (initialize_with ping check e this s)) = license_file s"
    and "get_cachedLicense this (snd (initialize_with ping check e this s)) =
      (case cached of
         Some loaded \<Rightarrow> if this < length (heap s) then Some loaded else None
       | None \<Rightarrow> get_cachedLicense this s)"
    and "Warn_not_responding \<in> set (console (snd (initialize_with ping check e this s)))"
    and "Error_object err \<in> set (console (snd (initialize_with ping check e this s)))"
  using assms
  by (simp_all add: initialize_with_unfold Let_def get_cachedLicense_def split: option.splits)


subsection \<open>The remote call and the policy check of the source\<close>

lemma pingLicenseServer_returns: "\<exists>response. fst (pingLicenseServer e) = Inr response"
  by (simp add: pingLicenseServer_def split: option.splits)

lemma pingLicenseServer_no_key:
  "LICENSE_KEY e = None \<or> LICENSE_KEY e = Some [] \<Longrightarrow> pingLicenseServer e = (Inr None, [], [])"
  by (auto simp add: pingLicenseServer_def)

lemma pingLicenseServer_key:
  "LICENSE_KEY e = Some k \<Longrightarrow> k \<noteq> [] \<Longrightarrow>
   pingLicenseServer e = (Inr (Some (mock_response k)), [Log_bypass_ping], [])"
  by (simp add: pingLicenseServer_def)

lemma fst_checkUnauthorizedFlagUsage [simp]:
  "fst (checkUnauthorizedFlagUsage e fl) = Inr False"
  by (simp add: checkUnauthorizedFlagUsage_def)

lemma pingLicenseServer_example:
  "fst (pingLicenseServer example_env) = Inr (Some (mock_response ''license-key''))"
  by (simp add: pingLicenseServer_def example_env_def)

lemma pingLicenseServer_example_no_key:
  "fst (pingLicenseServer example_env_no_key) = Inr None"
  by (simp add: pingLicenseServer_def example_env_no_key_def example_env_def)

lemma example_started_has_client: "0 < length (heap example_started)"
  by (simp add: example_started_def)

lemma loadFromFile_example_started:
  "loadFromFile example_env example_started = Inr None"
  "loadFromFile example_env_no_key example_started = Inr None"
  "loadFromFile example_env_open_fails example_started = Inr None"
  by (simp_all add: loadFromFile_def example_env_def example_env_no_key_def
      example_env_open_fails_def example_started_def)

lemma console_initialize:
  "\<exists>out. console (snd (initialize e this s)) = console s @ Log_checking # out
     \<and> Log_checking \<notin> set out
     \<and> (cwd_on_load e = None \<and> cwd_on_save e = None \<and> writeFile_result e = Written
          \<longrightarrow> filter is_failure_line out = [])"
  by (auto simp add: initialize_def initialize_with_unfold Let_def pingLicenseServer_def
      checkUnauthorizedFlagUsage_def console_saveToFile fst_saveToFile loadFromFile_def
      split: sum.splits option.splits write_result.splits)

lemma requests_initialize: "requests (snd (initialize e this s)) = requests s"
  by (auto simp add: initialize_def initialize_with_unfold Let_def pingLicenseServer_def
      checkUnauthorizedFlagUsage_def
      split: sum.splits option.splits)

lemma cycles_run_append:
  "Log_checking \<notin> set out \<Longrightarrow>
   length (filter (\<lambda>l. l = Log_checking) (xs @ Log_checking # out)) =
     Suc (length (filter (\<lambda>l. l = Log_checking) xs))"
proof -
  assume "Log_checking \<notin> set out"
  then have "filter (\<lambda>l. l = Log_checking) out = []"
    by (auto simp add: filter_empty_conv)
  then show ?thesis by simp
qed

lemma fst_initialize:
  "fst (initialize e this s) =
     (case cwd_on_load e of
        Some err \<Rightarrow> Inl err
      | None \<Rightarrow> (case cwd_on_save e of Some err \<Rightarrow> Inl err | None \<Rightarrow> Inr ()))"
  using pingLicenseServer_returns [of e]
  by (auto simp add: initialize_def fst_initialize_with loadFromFile_def split: option.splits)

lemma cycles_run_initialize: "cycles_run (snd (initialize e this s)) = Suc (cycles_run s)"
proof -
  obtain out where "console (snd (initialize e this s)) = console s @ Log_checking # out"
    and "Log_checking \<notin> set out"
    using console_initialize by blast
  then show ?thesis
    by (simp add: cycles_run_def cycles_run_append del: filter_append filter.simps)
qed


subsection \<open>Starting the client\<close>

lemma start_with_registered:
  "global_client s = Some registered \<Longrightarrow> start_with ping check e s = (Inr (), s)"
  by (simp add: start_with_def)

lemma start_with_unfold:
  assumes "global_client s = None"
  shows "start_with ping check e s =
     (let r = initialize_with ping check e (length (heap s))
                (s\<lparr>heap := heap s @ [\<lparr>cachedLicense = None\<rparr>],
                   global_client := Some (length (heap s))\<rparr>)
      in (Inr (),
          case fst r of
            Inl err \<Rightarrow> console_write [Error_failed_verify err] (snd r)
          | Inr u \<Rightarrow> snd r))"
  using assms
  by (simp add: start_with_def Let_def split: prod.splits sum.splits)

lemma fst_start_with [simp]: "fst (start_with ping check e s) = Inr ()"
proof (cases "global_client s")
  case None
  then show ?thesis by (simp add: start_with_unfold Let_def)
next
  case (Some registered)
  then show ?thesis by (simp add: start_with_registered)
qed

lemma global_client_start_with:
  "global_client (snd (start_with ping check e s)) =
     (case global_client s of None \<Rightarrow> Some (length (heap s)) | Some registered \<Rightarrow> Some registered)"
  by (cases "global_client s")
     (simp_all add: start_with_unfold Let_def start_with_registered split: sum.splits)

lemma length_heap_start_with:
  "global_client s = None \<Longrightarrow>
   length (heap (snd (start_with ping check e s))) = Suc (length (heap s))"
  by (simp add: start_with_unfold Let_def split: sum.splits)

lemma cycles_run_start:
  assumes "global_client s = None"
  shows "cycles_run (snd (start e s)) = Suc (cycles_run s)"
proof -
  let ?s2 = "s\<lparr>heap := heap s @ [\<lparr>cachedLicense = None\<rparr>],
               global_client := Some (length (heap s))\<rparr>"
  have c: "cycles_run (snd (initialize e (length (heap s)) ?s2)) = Suc (cycles_run ?s2)"
    by (rule cycles_run_initialize)
  have "cycles_run (snd (start e s)) = cycles_run (snd (initialize e (length (heap s)) ?s2))"
    using assms
    by (simp add: start_def start_with_unfold Let_def initialize_def cycles_run_def
        split: sum.splits)
  with c show ?thesis by (simp add: cycles_run_def)
qed


lemma derive_status_cases:
  "derive_status response unauthorized =
     (if unauthorized then UNAUTHORIZED
      else case response of
             None \<Rightarrow> NOT_FOUND
           | Some r \<Rightarrow> (case data r of None \<Rightarrow> NOT_FOUND | Some l \<Rightarrow> Reported (status l)))"
  by (simp add: derive_status_def response_status_def response_data_def Let_def
      split: option.splits)

lemma response_flags_cases:
  "response_flags response =
     (case response of
        None \<Rightarrow> []
      | Some r \<Rightarrow> (case data r of None \<Rightarrow> [] | Some l \<Rightarrow> flags l))"
  by (simp add: response_flags_def response_data_def split: option.splits)

lemma response_data_cases:
  "response_data response = (case response of None \<Rightarrow> None | Some r \<Rightarrow> data r)"
  by (simp add: response_data_def)

subsection \<open>The derived status\<close>

text \<open>
  C1. In every cycle that reaches the computation of the status (the load returned, the
  remote call returned \<open>response\<close>, and the policy check, called on the flags of the
  response, returned \<open>unauthorized\<close>), the record the cycle stores in the client, and writes
  to the file when the write succeeds, carries the result of the policy check and the
  license record of the response, and its derived status is \<open>UNAUTHORIZED\<close> if the check
  found unauthorized usage, whatever status was reported; otherwise the status field of
  the license record if the response carries one; otherwise \<open>NOT_FOUND\<close>.
\<close>

theorem derive_status_precedence:
  assumes "this < length (heap s)"
    and "loadFromFile e s = Inr cached"
    and "fst (ping e) = Inr response"
    and "fst (check e
           (case response of
              None \<Rightarrow> []
            | Some r \<Rightarrow> (case data r of None \<Rightarrow> [] | Some l \<Rightarrow> flags l))) = Inr unauthorized"
  shows "\<exists>d. get_cachedLicense this (snd (initialize_with ping check e this s)) = Some d
      \<and> unauthorizedFlagUsage d = unauthorized
      \<and> license d = (case response of None \<Rightarrow> None | Some r \<Rightarrow> data r)
      \<and> derivedStatus d =
          (if unauthorized then UNAUTHORIZED
           else case response of
                  None \<Rightarrow> NOT_FOUND
                | Some r \<Rightarrow> (case data r of None \<Rightarrow> NOT_FOUND | Some l \<Rightarrow> Reported (status l)))
      \<and> (cwd_on_save e = None \<and> writeFile_result e = Written \<longrightarrow>
           license_file (snd (initialize_with ping check e this s)) = Json (cached_json d))"
proof -
  let ?d = "\<lparr>lastChecked = now e, license = response_data response,
             requestedLicenseKey = LICENSE_KEY e, unauthorizedFlagUsage = unauthorized,
             derivedStatus = derive_status response unauthorized\<rparr>"
  have c: "fst (check e (response_flags response)) = Inr unauthorized"
    using assms(4) by (simp only: response_flags_cases)
  have mem: "get_cachedLicense this (snd (initialize_with ping check e this s)) = Some ?d"
    using assms(1,2,3) c by (rule initialize_with_memory)
  have written: "cwd_on_save e = None \<and> writeFile_result e = Written \<longrightarrow>
      license_file (snd (initialize_with ping check e this s)) = Json (cached_json ?d)"
    using initialize_with_file [where ping = ping and check = check and e = e,
        OF assms(2,3) c, of this]
    by simp
  have st: "derivedStatus ?d =
      (if unauthorized then UNAUTHORIZED
       else case response of
              None \<Rightarrow> NOT_FOUND
            | Some r \<Rightarrow> (case data r of None \<Rightarrow> NOT_FOUND | Some l \<Rightarrow> Reported (status l)))"
    by (simp add: derive_status_cases)
  have fl: "unauthorizedFlagUsage ?d = unauthorized" by simp
  have li: "license ?d = (case response of None \<Rightarrow> None | Some r \<Rightarrow> data r)"
    by (simp add: response_data_cases)
  show ?thesis
    by (rule exI [of _ ?d]) (intro conjI mem fl li st written)
qed

text \<open>
  The witness, one cycle for each branch: the remote call of the source reports \<open>ACTIVE\<close>
  and the policy check finds unauthorized usage; a remote call reports \<open>EXPIRED\<close>; a
  response carries no license record; and, with no key, there is no response.
\<close>

theorem derive_status_precedence_witness:
  "map_option derivedStatus
       (get_cachedLicense 0
         (snd (initialize_with pingLicenseServer check_usage_found example_env 0 example_started)))
     = Some UNAUTHORIZED
   \<and> map_option derivedStatus
       (get_cachedLicense 0
         (snd (initialize_with ping_expired checkUnauthorizedFlagUsage example_env 0 example_started)))
     = Some (Reported EXPIRED)
   \<and> map_option derivedStatus
       (get_cachedLicense 0
         (snd (initialize_with ping_no_data checkUnauthorizedFlagUsage example_env 0 example_started)))
     = Some NOT_FOUND
   \<and> map_option derivedStatus
       (get_cachedLicense 0
         (snd (initialize_with pingLicenseServer checkUnauthorizedFlagUsage example_env_no_key 0
                example_started)))
     = Some NOT_FOUND"
proof -
  note l = loadFromFile_example_started
  have 1: "map_option derivedStatus
       (get_cachedLicense 0
         (snd (initialize_with pingLicenseServer check_usage_found example_env 0 example_started)))
     = Some UNAUTHORIZED"
    using derive_status_precedence
      [where ping = pingLicenseServer and check = check_usage_found and e = example_env
         and response = "Some (mock_response ''license-key'')" and unauthorized = True,
       OF example_started_has_client l(1) pingLicenseServer_example]
    by (auto simp add: check_usage_found_def)
  have 2: "map_option derivedStatus
       (get_cachedLicense 0
         (snd (initialize_with ping_expired checkUnauthorizedFlagUsage example_env 0 example_started)))
     = Some (Reported EXPIRED)"
    using derive_status_precedence
      [where ping = ping_expired and check = checkUnauthorizedFlagUsage and e = example_env
         and unauthorized = False,
       OF example_started_has_client l(1)]
    by (auto simp add: ping_expired_def)
  have 3: "map_option derivedStatus
       (get_cachedLicense 0
         (snd (initialize_with ping_no_data checkUnauthorizedFlagUsage example_env 0 example_started)))
     = Some NOT_FOUND"
    using derive_status_precedence
      [where ping = ping_no_data and check = checkUnauthorizedFlagUsage and e = example_env
         and unauthorized = False,
       OF example_started_has_client l(1)]
    by (auto simp add: ping_no_data_def)
  have 4: "map_option derivedStatus
       (get_cachedLicense 0
         (snd (initialize_with pingLicenseServer checkUnauthorizedFlagUsage example_env_no_key 0
                example_started)))
     = Some NOT_FOUND"
    using derive_status_precedence
      [where ping = pingLicenseServer and check = checkUnauthorizedFlagUsage
         and e = example_env_no_key and response = None and unauthorized = False,
       OF example_started_has_client l(2) pingLicenseServer_example_no_key]
    by auto
  from 1 2 3 4 show ?thesis by simp
qed

text \<open>
  C2. The record a successful cycle stores has the derived status \<open>UNAUTHORIZED\<close> exactly
  when its field \<open>unauthorizedFlagUsage\<close> is true, for every response of the remote
  call. (A reported status is never \<open>UNAUTHORIZED\<close>: that value is not a status of a
  license record.)
\<close>

theorem unauthorized_iff_flag_usage:
  assumes "this < length (heap s)"
    and "loadFromFile e s = Inr cached"
    and "fst (ping e) = Inr response"
    and "fst (check e (response_flags response)) = Inr unauthorized"
  shows "\<exists>d. get_cachedLicense this (snd (initialize_with ping check e this s)) = Some d
      \<and> (derivedStatus d = UNAUTHORIZED \<longleftrightarrow> unauthorizedFlagUsage d)
      \<and> (cwd_on_save e = None \<and> writeFile_result e = Written \<longrightarrow>
           license_file (snd (initialize_with ping check e this s)) = Json (cached_json d))"
proof -
  let ?d = "\<lparr>lastChecked = now e, license = response_data response,
             requestedLicenseKey = LICENSE_KEY e, unauthorizedFlagUsage = unauthorized,
             derivedStatus = derive_status response unauthorized\<rparr>"
  have mem: "get_cachedLicense this (snd (initialize_with ping check e this s)) = Some ?d"
    using assms by (rule initialize_with_memory)
  have written: "cwd_on_save e = None \<and> writeFile_result e = Written \<longrightarrow>
      license_file (snd (initialize_with ping check e this s)) = Json (cached_json ?d)"
    using initialize_with_file [where ping = ping and check = check and e = e,
        OF assms(2,3,4), of this]
    by simp
  have iff: "derivedStatus ?d = UNAUTHORIZED \<longleftrightarrow> unauthorizedFlagUsage ?d"
    by (simp add: derive_status_cases split: option.splits)
  show ?thesis
    by (rule exI [of _ ?d]) (intro conjI mem iff written)
qed

text \<open>
  The witness: the cycle of the source itself, with a key set. The policy check returns
  false and the stored status, \<open>ACTIVE\<close>, is not \<open>UNAUTHORIZED\<close>.
\<close>

theorem unauthorized_iff_flag_usage_witness:
  "0 < length (heap example_started)
   \<and> loadFromFile example_env example_started = Inr None
   \<and> fst (pingLicenseServer example_env) = Inr (Some (mock_response ''license-key''))
   \<and> fst (checkUnauthorizedFlagUsage example_env (response_flags (Some (mock_response ''license-key'')))) = Inr False
   \<and> map_option unauthorizedFlagUsage
       (get_cachedLicense 0 (snd (initialize example_env 0 example_started))) = Some False
   \<and> map_option derivedStatus
       (get_cachedLicense 0 (snd (initialize example_env 0 example_started))) \<noteq> Some UNAUTHORIZED"
proof -
  have c: "fst (checkUnauthorizedFlagUsage example_env (response_flags (Some (mock_response ''license-key'')))) = Inr False"
    by simp
  have m: "get_cachedLicense 0 (snd (initialize example_env 0 example_started)) =
      Some \<lparr>lastChecked = now example_env,
            license = response_data (Some (mock_response ''license-key'')),
            requestedLicenseKey = LICENSE_KEY example_env, unauthorizedFlagUsage = False,
            derivedStatus = derive_status (Some (mock_response ''license-key'')) False\<rparr>"
    unfolding initialize_def
    by (rule initialize_with_memory
        [where ping = pingLicenseServer and check = checkUnauthorizedFlagUsage and e = example_env,
         OF example_started_has_client loadFromFile_example_started(1)
           pingLicenseServer_example c])
  from unauthorized_iff_flag_usage
    [where ping = pingLicenseServer and check = checkUnauthorizedFlagUsage and e = example_env,
     OF example_started_has_client loadFromFile_example_started(1) pingLicenseServer_example c]
  have "map_option derivedStatus
       (get_cachedLicense 0 (snd (initialize example_env 0 example_started))) \<noteq> Some UNAUTHORIZED"
    unfolding initialize_def using m [unfolded initialize_def] by auto
  with example_started_has_client loadFromFile_example_started(1) pingLicenseServer_example c m
  show ?thesis by simp
qed

text \<open>
  C3. The policy check of the source never finds unauthorized usage, so no cycle of the
  source has \<open>unauthorizedFlagUsage\<close> true. When the load throws, the cycle writes no
  record to the client or the file. Otherwise it constructs a record and stores it in the
  client (and in the file when the write succeeds), and in that record an absent license
  goes with the derived status \<open>NOT_FOUND\<close>.
\<close>

theorem absent_license_not_found:
  "(loadFromFile e s = Inl err \<longrightarrow>
      get_cachedLicense this (snd (initialize e this s)) = get_cachedLicense this s
      \<and> license_file (snd (initialize e this s)) = license_file s)
   \<and> (this < length (heap s) \<and> loadFromFile e s = Inr cached \<longrightarrow>
      (\<exists>d. get_cachedLicense this (snd (initialize e this s)) = Some d
         \<and> \<not> unauthorizedFlagUsage d
         \<and> (license d = None \<longrightarrow> derivedStatus d = NOT_FOUND)
         \<and> (cwd_on_save e = None \<and> writeFile_result e = Written \<longrightarrow>
              license_file (snd (initialize e this s)) = Json (cached_json d))))"
proof (intro conjI impI)
  assume "loadFromFile e s = Inl err"
  then have "initialize e this s = (Inl err, console_write [Log_checking] s)"
    unfolding initialize_def by (rule initialize_with_load_throws)
  then show "get_cachedLicense this (snd (initialize e this s)) = get_cachedLicense this s"
    and "license_file (snd (initialize e this s)) = license_file s"
    by simp_all
next
  assume a: "this < length (heap s) \<and> loadFromFile e s = Inr cached"
  obtain response where p: "fst (pingLicenseServer e) = Inr response"
    using pingLicenseServer_returns by blast
  have c: "fst (checkUnauthorizedFlagUsage e (response_flags response)) = Inr False" by simp
  let ?d = "\<lparr>lastChecked = now e, license = response_data response,
             requestedLicenseKey = LICENSE_KEY e, unauthorizedFlagUsage = False,
             derivedStatus = derive_status response False\<rparr>"
  have mem: "get_cachedLicense this (snd (initialize e this s)) = Some ?d"
    unfolding initialize_def
    using a p c
    by (simp add: initialize_with_memory
        [where ping = pingLicenseServer and check = checkUnauthorizedFlagUsage])
  have written: "cwd_on_save e = None \<and> writeFile_result e = Written \<longrightarrow>
      license_file (snd (initialize e this s)) = Json (cached_json ?d)"
    unfolding initialize_def
    using initialize_with_file
      [where ping = pingLicenseServer and check = checkUnauthorizedFlagUsage and e = e
         and s = s and cached = cached, OF _ p c, of this] a
    by simp
  have fl: "\<not> unauthorizedFlagUsage ?d" by simp
  have st: "license ?d = None \<longrightarrow> derivedStatus ?d = NOT_FOUND"
    by (simp add: derive_status_cases response_data_cases split: option.splits)
  show "\<exists>d. get_cachedLicense this (snd (initialize e this s)) = Some d
         \<and> \<not> unauthorizedFlagUsage d
         \<and> (license d = None \<longrightarrow> derivedStatus d = NOT_FOUND)
         \<and> (cwd_on_save e = None \<and> writeFile_result e = Written \<longrightarrow>
              license_file (snd (initialize e this s)) = Json (cached_json d))"
    by (rule exI [of _ ?d]) (intro conjI mem fl st written)
qed

text \<open>
  The witness: the cycle of the source with no key set stores an absent license with
  \<open>NOT_FOUND\<close>, in the client and in the file.
\<close>

theorem absent_license_not_found_witness:
  "0 < length (heap example_started)
   \<and> loadFromFile example_env_no_key example_started = Inr None
   \<and> map_option license
       (get_cachedLicense 0 (snd (initialize example_env_no_key 0 example_started))) = Some None
   \<and> map_option derivedStatus
       (get_cachedLicense 0 (snd (initialize example_env_no_key 0 example_started))) = Some NOT_FOUND
   \<and> license_file (snd (initialize example_env_no_key 0 example_started))
     = Json (JObject
         [(''lastChecked'', JString ''2026-11-03T09:00:00.000Z''),
          (''license'', JNull),
          (''unauthorizedFlagUsage'', JBool False),
          (''derivedStatus'', JString ''NOT_FOUND'')])"
proof -
  have c: "fst (checkUnauthorizedFlagUsage example_env_no_key (response_flags None)) = Inr False"
    by simp
  let ?d = "\<lparr>lastChecked = now example_env_no_key, license = response_data None,
            requestedLicenseKey = LICENSE_KEY example_env_no_key, unauthorizedFlagUsage = False,
            derivedStatus = derive_status None False\<rparr>"
  have m: "get_cachedLicense 0 (snd (initialize example_env_no_key 0 example_started)) = Some ?d"
    unfolding initialize_def
    by (rule initialize_with_memory
        [where ping = pingLicenseServer and check = checkUnauthorizedFlagUsage
           and e = example_env_no_key,
         OF example_started_has_client loadFromFile_example_started(2)
           pingLicenseServer_example_no_key c])
  have w: "cwd_on_save example_env_no_key = None \<and> writeFile_result example_env_no_key = Written"
    by (simp add: example_env_no_key_def example_env_def)
  from absent_license_not_found
    [of example_env_no_key example_started _ 0 None]
    example_started_has_client loadFromFile_example_started(2) m w
  have "derivedStatus ?d = NOT_FOUND"
    and "license_file (snd (initialize example_env_no_key 0 example_started)) = Json (cached_json ?d)"
    by (auto simp add: response_data_def)
  with example_started_has_client loadFromFile_example_started(2) m show ?thesis
    by (simp add: response_data_def cached_json_def example_env_no_key_def example_env_def)
qed

subsection \<open>The fallback to the cached record\<close>

text \<open>
  C4. When the remote call fails in a cycle that loaded a prior record from the file, the
  cycle returns normally, the client holds exactly the loaded record (its \<open>lastChecked\<close>
  is the old one, not the current time), \<open>getCachedLicense\<close> returns that record, and
  the file is what it was.
\<close>

theorem unreachable_keeps_loaded_record:
  assumes "this < length (heap s)"
    and "loadFromFile e s = Inr (Some prior)"
    and "fst (ping e) = Inl err"
  shows "fst (initialize_with ping check e this s) = Inr ()
     \<and> get_cachedLicense this (snd (initialize_with ping check e this s)) = Some prior
     \<and> map_option lastChecked (get_cachedLicense this (snd (initialize_with ping check e this s)))
         = Some (lastChecked prior)
     \<and> getCachedLicense e this (snd (initialize_with ping check e this s)) = Inr (Some prior)
     \<and> license_file (snd (initialize_with ping check e this s)) = license_file s"
proof -
  note u = initialize_with_unreachable [where ping = ping and e = e, OF assms(2,3)]
  have m: "get_cachedLicense this (snd (initialize_with ping check e this s)) = Some prior"
    using assms(1) by (simp add: u(3))
  then have g: "getCachedLicense e this (snd (initialize_with ping check e this s)) = Inr (Some prior)"
    by (simp add: getCachedLicense_def)
  from m g show ?thesis by (simp add: u(1,2))
qed

text \<open>
  The witness: a file from an earlier run with status \<open>ACTIVE\<close>, and a remote call that
  fails.
\<close>

theorem unreachable_keeps_loaded_record_witness:
  "0 < length (heap example_started_with_file)
   \<and> loadFromFile example_env example_started_with_file = Inr (Some example_cached)
   \<and> fst (ping_unreachable example_env) = Inl (Error ''fetch failed'')
   \<and> getCachedLicense example_env 0
       (snd (initialize_with ping_unreachable checkUnauthorizedFlagUsage example_env 0
              example_started_with_file)) = Inr (Some example_cached)
   \<and> map_option lastChecked
       (get_cachedLicense 0
         (snd (initialize_with ping_unreachable checkUnauthorizedFlagUsage example_env 0
                example_started_with_file))) = Some ''2026-10-01T08:00:00.000Z''
   \<and> license_file
       (snd (initialize_with ping_unreachable checkUnauthorizedFlagUsage example_env 0
              example_started_with_file)) = license_file example_started_with_file"
proof -
  have h: "0 < length (heap example_started_with_file)"
    by (simp add: example_started_with_file_def example_started_def)
  have p: "fst (ping_unreachable example_env) = Inl (Error ''fetch failed'')"
    by (simp add: ping_unreachable_def)
  from unreachable_keeps_loaded_record
    [where ping = ping_unreachable and e = example_env and check = checkUnauthorizedFlagUsage,
     OF h loadFromFile_example p]
  show ?thesis using h loadFromFile_example p by (simp add: example_cached_def)
qed

subsection \<open>The policy check\<close>

text \<open>
  C5, as stated, fails: billing is enabled on the host, an organisation claims the
  enterprise flag \<^verbatim>\<open>cfr21\<close>, and no flag is granted. The policy checker of the spec answers
  true; the check of the source returns false.
\<close>

theorem policy_check_ignores_host_counterexample:
  "IS_BILLING_ENABLED (host example_env)
   \<and> \<not> granted [] ''billing''
   \<and> list_ex (\<lambda>claim. map_of claim ''cfr21'' = Some True) (organisationClaims (host example_env))
   \<and> ''cfr21'' \<in> set (enterpriseFlags (host example_env))
   \<and> findUnauthorizedUsage_spec (host example_env) [] = True
   \<and> fst (checkUnauthorizedFlagUsage example_env []) = Inr False"
  by (simp add: example_env_def example_host_def granted_def findUnauthorizedUsage_spec_def
      checkUnauthorizedFlagUsage_def)

text \<open>
  C5, amended. The policy check of the source returns false on every input, whatever the
  granted flags, the claims in the host's records and the billing setting: it is a bypass
  that looks at none of them.
\<close>

theorem policy_check_always_false:
  "checkUnauthorizedFlagUsage e licenseFlags = (Inr False, [Log_bypass_check], [])"
  by (simp add: checkUnauthorizedFlagUsage_def)

subsection \<open>Starting twice\<close>

text \<open>
  C6. When no client is registered, the first \<open>start\<close> returns normally, runs the cycle
  once and registers a new object; a second \<open>start\<close> (in whatever surroundings) returns
  normally at once and changes nothing: the cycle has still run exactly once, and
  \<open>getInstance\<close> returns the same object after both calls.
\<close>

theorem start_twice_one_cycle:
  assumes "global_client s = None"
  shows "fst (start e s) = Inr ()
     \<and> cycles_run (snd (start e s)) = Suc (cycles_run s)
     \<and> getInstance (snd (start e s)) = Some (length (heap s))
     \<and> length (heap s) < length (heap (snd (start e s)))
     \<and> start e' (snd (start e s)) = (Inr (), snd (start e s))
     \<and> cycles_run (snd (start e' (snd (start e s)))) = Suc (cycles_run s)
     \<and> getInstance (snd (start e' (snd (start e s)))) = getInstance (snd (start e s))"
proof -
  have r1: "fst (start e s) = Inr ()" by (simp add: start_def)
  have c1: "cycles_run (snd (start e s)) = Suc (cycles_run s)"
    using assms by (rule cycles_run_start)
  have g1: "getInstance (snd (start e s)) = Some (length (heap s))"
    using assms by (simp add: getInstance_def start_def global_client_start_with)
  have h1: "length (heap s) < length (heap (snd (start e s)))"
    using assms by (simp add: start_def length_heap_start_with)
  have second: "start e' (snd (start e s)) = (Inr (), snd (start e s))"
    using g1 unfolding start_def getInstance_def by (rule start_with_registered)
  from r1 c1 g1 h1 second show ?thesis by simp
qed

text \<open>
  The witness: a fresh process; the second call is made while the file cannot be opened
  for writing.
\<close>

theorem start_twice_one_cycle_witness:
  "global_client example_fresh = None
   \<and> cycles_run example_fresh = 0
   \<and> cycles_run (snd (start example_env example_fresh)) = 1
   \<and> cycles_run (snd (start example_env_open_fails (snd (start example_env example_fresh)))) = 1
   \<and> getInstance (snd (start example_env example_fresh)) = Some 0
   \<and> getInstance (snd (start example_env_open_fails (snd (start example_env example_fresh)))) = Some 0"
proof -
  have g: "global_client example_fresh = None" and c: "cycles_run example_fresh = 0"
    and h: "length (heap example_fresh) = 0"
    by (simp_all add: example_fresh_def cycles_run_def)
  from start_twice_one_cycle [OF g, of example_env example_env_open_fails]
  show ?thesis using g c h by simp
qed

subsection \<open>Failures inside the cycle\<close>




subsection \<open>No license key\<close>

text \<open>
  C8. With no license key set (the variable unset or empty) the remote call returns
  absent, not an error, writes nothing to the console and sends no request. In a cycle
  whose load returned, no request is sent over the network and the record stored has an
  absent license, \<open>unauthorizedFlagUsage\<close> false and the derived status \<open>NOT_FOUND\<close>; the
  cycle returns normally when \<open>saveToFile\<close> gets its path.
\<close>

theorem no_key_cycle:
  assumes "LICENSE_KEY e = None \<or> LICENSE_KEY e = Some []"
    and "this < length (heap s)"
    and "loadFromFile e s = Inr cached"
  shows "pingLicenseServer e = (Inr None, [], [])
     \<and> requests (snd (initialize e this s)) = requests s
     \<and> get_cachedLicense this (snd (initialize e this s)) =
         Some \<lparr>lastChecked = now e, license = None, requestedLicenseKey = LICENSE_KEY e,
               unauthorizedFlagUsage = False, derivedStatus = NOT_FOUND\<rparr>
     \<and> (cwd_on_save e = None \<longrightarrow> fst (initialize e this s) = Inr ())"
proof -
  have p: "pingLicenseServer e = (Inr None, [], [])"
    using assms(1) by (rule pingLicenseServer_no_key)
  then have p': "fst (pingLicenseServer e) = Inr None" by simp
  have c: "fst (checkUnauthorizedFlagUsage e (response_flags None)) = Inr False" by simp
  have m: "get_cachedLicense this (snd (initialize e this s)) =
      Some \<lparr>lastChecked = now e, license = response_data None,
            requestedLicenseKey = LICENSE_KEY e, unauthorizedFlagUsage = False,
            derivedStatus = derive_status None False\<rparr>"
    unfolding initialize_def
    by (rule initialize_with_memory
        [where ping = pingLicenseServer and check = checkUnauthorizedFlagUsage and e = e,
         OF assms(2,3) p' c])
  have r: "cwd_on_save e = None \<longrightarrow> fst (initialize e this s) = Inr ()"
    using assms(3) by (auto simp add: fst_initialize loadFromFile_def split: option.splits)
  from p m r show ?thesis
    by (simp add: response_data_def derive_status_cases requests_initialize)
qed

text \<open>The witness: the variable is unset.\<close>

theorem no_key_cycle_witness:
  "LICENSE_KEY example_env_no_key = None \<and> 0 < length (heap example_started)
   \<and> loadFromFile example_env_no_key example_started = Inr None
   \<and> pingLicenseServer example_env_no_key = (Inr None, [], [])
   \<and> requests (snd (initialize example_env_no_key 0 example_started)) = []
   \<and> get_cachedLicense 0 (snd (initialize example_env_no_key 0 example_started)) =
       Some \<lparr>lastChecked = ''2026-11-03T09:00:00.000Z'', license = None,
             requestedLicenseKey = None, unauthorizedFlagUsage = False,
             derivedStatus = NOT_FOUND\<rparr>
   \<and> fst (initialize example_env_no_key 0 example_started) = Inr ()"
proof -
  have n: "LICENSE_KEY example_env_no_key = None"
    and w: "cwd_on_save example_env_no_key = None"
    by (simp_all add: example_env_no_key_def example_env_def)
  then have n': "LICENSE_KEY example_env_no_key = None \<or> LICENSE_KEY example_env_no_key = Some []"
    by simp
  from no_key_cycle [OF n' example_started_has_client loadFromFile_example_started(2)]
  show ?thesis using n w example_started_has_client loadFromFile_example_started(2)
    by (simp add: example_env_no_key_def example_env_def example_started_def)
qed

subsection \<open>Saving and loading\<close>

text \<open>
  C9. For a cached license whose dates are valid dates: when \<open>saveToFile\<close> gets its path
  and the write succeeds, and the later \<open>loadFromFile\<close> gets its path and the read
  succeeds, the load returns the license that was saved, equal in every field, the two
  dates and the flags of the license record among them.
\<close>

theorem save_load_round_trip:
  assumes "valid_cached d"
    and "cwd_on_save e = None" and "writeFile_result e = Written"
    and "cwd_on_load e' = None" and "readFile_ok e'"
  shows "fst (saveToFile e d s) = Inr ()
     \<and> loadFromFile e' (snd (saveToFile e d s)) = Inr (Some d)"
  using assms by (simp add: loadFromFile_def saveToFile_def parse_cached_json)

text \<open>
  The witness: the record of an earlier run, with the license record of the mock response,
  and a record whose license has other dates, one of them before the epoch; no file
  before the write.
\<close>

theorem save_load_round_trip_witness:
  "valid_cached example_cached
   \<and> loadFromFile example_env (snd (saveToFile example_env example_cached example_fresh))
       = Inr (Some example_cached)
   \<and> valid_cached example_cached_other_dates
   \<and> loadFromFile example_env (snd (saveToFile example_env example_cached_other_dates example_fresh))
       = Inr (Some example_cached_other_dates)"
proof -
  have w: "cwd_on_save example_env = None" "writeFile_result example_env = Written"
    "cwd_on_load example_env = None" "readFile_ok example_env"
    by (simp_all add: example_env_def)
  have v: "valid_cached example_cached_other_dates"
    by (simp add: valid_cached_def valid_date_def example_cached_other_dates_def)
  from save_load_round_trip [OF valid_cached_example w, of example_fresh]
    save_load_round_trip [OF v w, of example_fresh]
  show ?thesis using valid_cached_example v by simp
qed

subsection \<open>A license key is set\<close>

text \<open>
  C10, as stated, fails in two cycles with a key set. When the file cannot be opened
  for writing, the cycle returns normally and the file is not replaced (here there is
  still none). When the working directory has been removed, the cycle throws before the
  remote call and the client holds no record.
\<close>

theorem configured_key_not_replaced_counterexample:
  "LICENSE_KEY example_env_open_fails = Some ''license-key''
   \<and> license_file example_started = NoFile
   \<and> fst (initialize example_env_open_fails 0 example_started) = Inr ()
   \<and> license_file (snd (initialize example_env_open_fails 0 example_started)) = NoFile
   \<and> LICENSE_KEY example_env_cwd_removed = Some ''license-key''
   \<and> fst (initialize example_env_cwd_removed 0 example_started) = Inl (Error ''ENOENT: uv_cwd'')
   \<and> get_cachedLicense 0 (snd (initialize example_env_cwd_removed 0 example_started)) = None"
proof -
  have pw: "fst (pingLicenseServer example_env_open_fails) = Inr (Some (mock_response ''license-key''))"
    by (simp add: pingLicenseServer_def example_env_open_fails_def example_env_def)
  have cw: "fst (checkUnauthorizedFlagUsage example_env_open_fails
        (response_flags (Some (mock_response ''license-key'')))) = Inr False"
    by simp
  have 1: "license_file (snd (initialize example_env_open_fails 0 example_started)) = NoFile"
    unfolding initialize_def
    using initialize_with_file
      [where ping = pingLicenseServer and check = checkUnauthorizedFlagUsage
         and e = example_env_open_fails and this = 0 and s = example_started,
       OF loadFromFile_example_started(3) pw cw]
    by (simp add: example_env_open_fails_def example_env_def example_started_def)
  have 2: "fst (initialize example_env_open_fails 0 example_started) = Inr ()"
    by (simp add: fst_initialize example_env_open_fails_def example_env_def)
  have l: "loadFromFile example_env_cwd_removed example_started = Inl (Error ''ENOENT: uv_cwd'')"
    by (simp add: loadFromFile_def example_env_cwd_removed_def)
  have 3: "initialize example_env_cwd_removed 0 example_started
      = (Inl (Error ''ENOENT: uv_cwd''), console_write [Log_checking] example_started)"
    unfolding initialize_def using l by (rule initialize_with_load_throws)
  from 1 2 3 show ?thesis
    by (simp add: example_env_open_fails_def example_env_cwd_removed_def example_env_def
        example_started_def get_cachedLicense_def)
qed

text \<open>
  C10, amended. The remote call never returns an error. With a (nonempty) key set it
  returns the mock response: successful, status \<open>ACTIVE\<close>, the configured key, and the
  six feature flags all true. Every cycle with a key set whose load returned replaces the
  record of the client with a fresh one whose derived status is \<open>ACTIVE\<close> and whose
  \<open>lastChecked\<close> is the current time; when \<open>saveToFile\<close> gets its path and the write
  succeeds, the cycle returns normally and has replaced the file with that record.
\<close>

theorem configured_key_cycle:
  assumes "LICENSE_KEY e = Some k" and "k \<noteq> []" and "this < length (heap s)"
    and "loadFromFile e s = Inr cached"
  shows "pingLicenseServer e = (Inr (Some (mock_response k)), [Log_bypass_ping], [])
     \<and> fst (pingLicenseServer e') \<noteq> Inl err
     \<and> success (mock_response k)
     \<and> map_option status (data (mock_response k)) = Some ACTIVE
     \<and> map_option licenseKey (data (mock_response k)) = Some k
     \<and> map_option flags (data (mock_response k)) =
         Some [(''emailDomains'', True), (''embedAuthoring'', True),
               (''embedAuthoringWhiteLabel'', True), (''cfr21'', True),
               (''authenticationPortal'', True), (''billing'', True)]
     \<and> get_cachedLicense this (snd (initialize e this s)) =
         Some \<lparr>lastChecked = now e, license = data (mock_response k),
               requestedLicenseKey = Some k, unauthorizedFlagUsage = False,
               derivedStatus = Reported ACTIVE\<rparr>
     \<and> (cwd_on_save e = None \<and> writeFile_result e = Written \<longrightarrow>
          fst (initialize e this s) = Inr ()
          \<and> license_file (snd (initialize e this s)) =
              Json (cached_json
                      \<lparr>lastChecked = now e, license = data (mock_response k),
                       requestedLicenseKey = Some k, unauthorizedFlagUsage = False,
                       derivedStatus = Reported ACTIVE\<rparr>))"
proof -
  have p: "pingLicenseServer e = (Inr (Some (mock_response k)), [Log_bypass_ping], [])"
    using assms(1,2) by (rule pingLicenseServer_key)
  then have p': "fst (pingLicenseServer e) = Inr (Some (mock_response k))" by simp
  have never: "fst (pingLicenseServer e') \<noteq> Inl err"
    using pingLicenseServer_returns [of e'] by auto
  have c: "fst (checkUnauthorizedFlagUsage e (response_flags (Some (mock_response k)))) = Inr False"
    by simp
  have d: "derive_status (Some (mock_response k)) False = Reported ACTIVE"
    by (simp add: derive_status_cases mock_response_def)
  have m: "get_cachedLicense this (snd (initialize e this s)) =
      Some \<lparr>lastChecked = now e, license = data (mock_response k),
            requestedLicenseKey = Some k, unauthorizedFlagUsage = False,
            derivedStatus = Reported ACTIVE\<rparr>"
    unfolding initialize_def
    using initialize_with_memory
      [where ping = pingLicenseServer and check = checkUnauthorizedFlagUsage and e = e,
       OF assms(3,4) p' c]
    by (simp add: d assms(1) response_data_def)
  have f: "cwd_on_save e = None \<and> writeFile_result e = Written \<longrightarrow>
      license_file (snd (initialize e this s)) =
              Json (cached_json
                      \<lparr>lastChecked = now e, license = data (mock_response k),
                       requestedLicenseKey = Some k, unauthorizedFlagUsage = False,
                       derivedStatus = Reported ACTIVE\<rparr>)"
    unfolding initialize_def
    using initialize_with_file
      [where ping = pingLicenseServer and check = checkUnauthorizedFlagUsage and e = e
         and this = this and s = s, OF assms(4) p' c]
    by (simp add: d assms(1) response_data_def)
  have r: "cwd_on_save e = None \<longrightarrow> fst (initialize e this s) = Inr ()"
    using assms(4) by (auto simp add: fst_initialize loadFromFile_def split: option.splits)
  have mock: "success (mock_response k)
     \<and> map_option status (data (mock_response k)) = Some ACTIVE
     \<and> map_option licenseKey (data (mock_response k)) = Some k
     \<and> map_option flags (data (mock_response k)) =
         Some [(''emailDomains'', True), (''embedAuthoring'', True),
               (''embedAuthoringWhiteLabel'', True), (''cfr21'', True),
               (''authenticationPortal'', True), (''billing'', True)]"
    by (simp add: mock_response_def)
  from p never mock m f r show ?thesis by simp
qed

text \<open>
  The witness: a cycle over the file of an earlier run; afterwards the file holds the
  record the client holds.
\<close>

theorem configured_key_cycle_witness:
  "LICENSE_KEY example_env = Some ''license-key'' \<and> ''license-key'' \<noteq> []
   \<and> 0 < length (heap example_started_with_file)
   \<and> loadFromFile example_env example_started_with_file = Inr (Some example_cached)
   \<and> map_option derivedStatus
       (get_cachedLicense 0 (snd (initialize example_env 0 example_started_with_file)))
       = Some (Reported ACTIVE)
   \<and> map_option lastChecked
       (get_cachedLicense 0 (snd (initialize example_env 0 example_started_with_file)))
       = Some ''2026-11-03T09:00:00.000Z''
   \<and> loadFromFile example_env (snd (initialize example_env 0 example_started_with_file))
       = Inr (get_cachedLicense 0 (snd (initialize example_env 0 example_started_with_file)))"
proof -
  have k: "LICENSE_KEY example_env = Some ''license-key''" and n: "''license-key'' \<noteq> []"
    and w: "cwd_on_save example_env = None" "writeFile_result example_env = Written"
    and t: "now example_env = ''2026-11-03T09:00:00.000Z''"
    and r: "readFile_ok example_env" "cwd_on_load example_env = None"
    by (simp_all add: example_env_def)
  have h: "0 < length (heap example_started_with_file)"
    by (simp add: example_started_with_file_def example_started_def)
  let ?d = "\<lparr>lastChecked = now example_env, license = data (mock_response ''license-key''),
             requestedLicenseKey = Some ''license-key'', unauthorizedFlagUsage = False,
             derivedStatus = Reported ACTIVE\<rparr>"
  have v: "valid_cached ?d"
    by (simp add: valid_cached_def valid_date_def mock_response_def)
  from configured_key_cycle [OF k n h loadFromFile_example]
  have m: "get_cachedLicense 0 (snd (initialize example_env 0 example_started_with_file)) = Some ?d"
    and f: "license_file (snd (initialize example_env 0 example_started_with_file))
        = Json (cached_json ?d)"
    by (simp_all add: w)
  from f have "loadFromFile example_env (snd (initialize example_env 0 example_started_with_file))
      = Inr (Some ?d)"
    by (simp add: loadFromFile_def r parse_cached_json [OF v])
  with m k n h t loadFromFile_example show ?thesis by simp
qed

end
